theory Spec2Isabelle
  imports Main "HOL-Library.Word" "HOL-Library.Sublist"
begin

section \<open>JavaScript values\<close>

text \<open>
  A JavaScript string is a sequence of UTF-16 code units, so a string is a list of 16-bit
  words and \<open>length\<close> is the \<open>.length\<close> of the source. \<open>js\<close> turns a literal of the
  theory into such a string. A value that is not a string (undefined, null, a number, an
  object) is \<open>JOther\<close>: the code under study only asks whether a value is a string.
\<close>

type_synonym jschar = "16 word"
type_synonym jsstring = "jschar list"

definition js :: "string \<Rightarrow> jsstring" where
  "js s = map of_char s"

datatype jsval = JString jsstring | JOther

text \<open>\<open>String.prototype.startsWith\<close>.\<close>

definition startsWith :: "jsstring \<Rightarrow> jsstring \<Rightarrow> bool" where
  "startsWith s p = (take (length p) s = p)"

text \<open>The class \<open>[0-9a-fA-F]\<close> of a regular expression.\<close>

definition isHexDigit :: "jschar \<Rightarrow> bool" where
  "isHexDigit c = ((48 \<le> c \<and> c \<le> 57) \<or> (97 \<le> c \<and> c \<le> 102) \<or> (65 \<le> c \<and> c \<le> 70))"

section \<open>Token Transfer Batch Runner\<close>

text \<open>
  The library calls of \<open>sendTokens\<close> are parameters of the model, since neither ethers nor
  the network is part of the repository:
  \<^item> \<open>isAddress\<close> is \<open>ethers.isAddress\<close> on a string;
  \<^item> \<open>toLowerCase\<close> is \<open>String.prototype.toLowerCase\<close>;
  \<^item> \<open>newWallet\<close> tells whether \<open>new ethers.Wallet(PRIVATE_KEY, provider)\<close> returns;
  \<^item> \<open>transfer net token recipient amount\<close> is \<open>tokenContract.transfer(recipient, amount)\<close>
    followed by \<open>tx.wait()\<close>: \<open>Inr\<close> the hash of the receipt, or \<open>Inl\<close> the message of the
    error either call threw, and the state of the network after the attempt.
  The network state \<open>'net\<close> is changed by \<open>transfer\<close> only: the calls that read the symbol, the
  decimals and the balance are views, made inside a \<open>try\<close> whose \<open>catch\<close> only logs.
\<close>

record 'net externals =
  isAddress :: "jsstring \<Rightarrow> bool"
  toLowerCase :: "jsstring \<Rightarrow> jsstring"
  newWallet :: "jsstring \<Rightarrow> bool"
  transfer :: "'net \<Rightarrow> jsval \<Rightarrow> jsval \<Rightarrow> int \<Rightarrow> (jsstring + jsstring) \<times> 'net"

text \<open>Every \<open>throw\<close> of \<open>sendTokens\<close> is a constructor, in the order of the source.\<close>

datatype error =
    EnvLoadFailed
  | WalletRejected
  | InvalidTokenAddress jsval
  | RecipientsNotNonEmptyArray
  | ToLowerCaseTypeError
  | RecipientNotString jsval
  | RecipientNoPrefix jsstring
  | RecipientBadLength jsstring
  | RecipientNotAddress jsstring
  | AmountNotPositive
  | AllTransfersFailed

text \<open>The \<open>recipients\<close> argument: an array of values, or something that is not an array.\<close>

datatype recipients_arg = NotArray | Array "jsval list"

text \<open>
  A per-recipient outcome: \<open>{to, txHash}\<close> pushed to \<open>successful\<close>, or \<open>{to, error}\<close> pushed
  to \<open>failed\<close>.
\<close>

datatype outcome =
    is_Sent: Sent (to: jsval) (txHash: jsstring)
  | is_Failed: Failed (to: jsval) (error: jsstring)

text \<open>The value returned: \<open>{success: true, sent, failed}\<close>, \<open>failed\<close> being undefined when empty.\<close>

record batch_result =
  sent :: "outcome list"
  failed :: "outcome list option"

text \<open>\<open>!tokenAddress || !ethers.isAddress(tokenAddress)\<close>; ethers accepts strings only.\<close>

definition invalidTokenAddress :: "'net externals \<Rightarrow> jsval \<Rightarrow> bool" where
  "invalidTokenAddress L t =
     (case t of JOther \<Rightarrow> True | JString s \<Rightarrow> s = [] \<or> \<not> isAddress L s)"

text \<open>
  \<open>recipients.map(r => r.toLowerCase())\<close>: a value without a \<open>toLowerCase\<close> method makes
  the call throw a TypeError.
\<close>

fun normalizeRecipients :: "'net externals \<Rightarrow> jsval list \<Rightarrow> error + jsval list" where
  "normalizeRecipients L [] = Inr []"
| "normalizeRecipients L (JOther # rs) = Inl ToLowerCaseTypeError"
| "normalizeRecipients L (JString s # rs) =
     (case normalizeRecipients L rs of
        Inl e \<Rightarrow> Inl e
      | Inr ns \<Rightarrow> Inr (JString (toLowerCase L s) # ns))"

text \<open>The four checks made on one recipient, in the order of the source.\<close>

definition checkRecipient :: "'net externals \<Rightarrow> jsval \<Rightarrow> error option" where
  "checkRecipient L r =
     (case r of
        JOther \<Rightarrow> Some (RecipientNotString r)
      | JString s \<Rightarrow>
          if \<not> startsWith s (js ''0x'') then Some (RecipientNoPrefix s)
          else if length s \<noteq> 42 then Some (RecipientBadLength s)
          else if \<not> isAddress L s then Some (RecipientNotAddress s)
          else None)"

text \<open>The validation loop: the first recipient that fails a check throws.\<close>

fun validateRecipients :: "'net externals \<Rightarrow> jsval list \<Rightarrow> error option" where
  "validateRecipients L [] = None"
| "validateRecipients L (r # rs) =
     (case checkRecipient L r of
        Some e \<Rightarrow> Some e
      | None \<Rightarrow> validateRecipients L rs)"

text \<open>
  The transfer loop: one attempt per recipient, in order, each pushing one entry to
  \<open>successful\<close> or to \<open>failed\<close>. The result is the two arrays and the network state.
\<close>

fun transferLoop ::
  "'net externals \<Rightarrow> 'net \<Rightarrow> jsval \<Rightarrow> int \<Rightarrow> jsval list \<Rightarrow> outcome list \<Rightarrow> outcome list
     \<Rightarrow> outcome list \<times> outcome list \<times> 'net" where
  "transferLoop L net token amount [] successful failedL = (successful, failedL, net)"
| "transferLoop L net token amount (r # rs) successful failedL =
     (case transfer L net token r amount of
        (Inr h, net') \<Rightarrow> transferLoop L net' token amount rs (successful @ [Sent r h]) failedL
      | (Inl msg, net') \<Rightarrow> transferLoop L net' token amount rs successful (failedL @ [Failed r msg]))"

text \<open>
  The end of \<open>sendTokens\<close>: it throws when no transfer succeeded, and returns both arrays
  otherwise, \<open>failed\<close> as undefined when it is empty.
\<close>

definition batchOutcome ::
  "outcome list \<times> outcome list \<times> 'net \<Rightarrow> (error + batch_result) \<times> 'net" where
  "batchOutcome r =
     (case r of (successful, failedL, net') \<Rightarrow>
        if length successful = 0 then (Inl AllTransfersFailed, net')
        else (Inr \<lparr>sent = successful,
                   failed = (if length failedL > 0 then Some failedL else None)\<rparr>, net'))"

text \<open>
  The checks of \<open>sendTokens\<close> in \<^verbatim>\<open>multi-tool-plugin-v2.cjs\<close> before the first transfer:
  the private key of \<^verbatim>\<open>env.js\<close> (\<open>None\<close> when the file or the key is missing), the wallet, the
  token address, the recipients array, the lowercasing, the validation loop, the amount. It
  returns the normalized recipients.
\<close>

definition validateInput ::
  "'net externals \<Rightarrow> jsstring option \<Rightarrow> jsval \<Rightarrow> recipients_arg \<Rightarrow> int \<Rightarrow> error + jsval list" where
  "validateInput L privateKey tokenAddress recipients amount =
     (case privateKey of
        None \<Rightarrow> Inl EnvLoadFailed
      | Some k \<Rightarrow>
          if k = [] then Inl EnvLoadFailed
          else if \<not> newWallet L k then Inl WalletRejected
          else if invalidTokenAddress L tokenAddress then Inl (InvalidTokenAddress tokenAddress)
          else (case recipients of
                  NotArray \<Rightarrow> Inl RecipientsNotNonEmptyArray
                | Array rs \<Rightarrow>
                    if length rs = 0 then Inl RecipientsNotNonEmptyArray
                    else (case normalizeRecipients L rs of
                            Inl e \<Rightarrow> Inl e
                          | Inr ns \<Rightarrow>
                              (case validateRecipients L ns of
                                 Some e \<Rightarrow> Inl e
                               | None \<Rightarrow>
                                   if amount \<le> 0 then Inl AmountNotPositive else Inr ns))))"

text \<open>\<open>sendTokens\<close> of \<^verbatim>\<open>multi-tool-plugin-v2.cjs\<close>.\<close>

definition sendTokens ::
  "'net externals \<Rightarrow> jsstring option \<Rightarrow> 'net \<Rightarrow> jsval \<Rightarrow> recipients_arg \<Rightarrow> int
     \<Rightarrow> (error + batch_result) \<times> 'net" where
  "sendTokens L privateKey net tokenAddress recipients amount =
     (case validateInput L privateKey tokenAddress recipients amount of
        Inl e \<Rightarrow> (Inl e, net)
      | Inr ns \<Rightarrow> batchOutcome (transferLoop L net tokenAddress amount ns [] []))"

text \<open>
  \<open>sendTokens\<close> of the other multi-tool plugin (\<^verbatim>\<open>part_011\<close>): the wallet is the module's
  shared one, and the recipients are validated and used as they are given.
\<close>

definition validateInput_part011 ::
  "'net externals \<Rightarrow> jsval \<Rightarrow> recipients_arg \<Rightarrow> int \<Rightarrow> error + jsval list" where
  "validateInput_part011 L tokenAddress recipients amount =
     (if invalidTokenAddress L tokenAddress then Inl (InvalidTokenAddress tokenAddress)
      else (case recipients of
              NotArray \<Rightarrow> Inl RecipientsNotNonEmptyArray
            | Array rs \<Rightarrow>
                if length rs = 0 then Inl RecipientsNotNonEmptyArray
                else (case validateRecipients L rs of
                        Some e \<Rightarrow> Inl e
                      | None \<Rightarrow> if amount \<le> 0 then Inl AmountNotPositive else Inr rs)))"

definition sendTokens_part011 ::
  "'net externals \<Rightarrow> 'net \<Rightarrow> jsval \<Rightarrow> recipients_arg \<Rightarrow> int \<Rightarrow> (error + batch_result) \<times> 'net" where
  "sendTokens_part011 L net tokenAddress recipients amount =
     (case validateInput_part011 L tokenAddress recipients amount of
        Inl e \<Rightarrow> (Inl e, net)
      | Inr rs \<Rightarrow> batchOutcome (transferLoop L net tokenAddress amount rs [] []))"

subsection \<open>The loop of the \<open>send-token\<close> handler\<close>



text \<open>
  The response of the handler after the loop: \<open>{success: false, error, failed}\<close> when nothing
  was sent and something failed, \<open>{success: true, sent, failed}\<close> otherwise.
\<close>

datatype handler_response =
    AllFailed jsstring "outcome list"
  | Success "outcome list" "outcome list option"

definition handlerResponse :: "outcome list \<times> outcome list \<times> 'net \<Rightarrow> handler_response" where
  "handlerResponse r =
     (case r of (successful, failedL, net') \<Rightarrow>
        if length successful = 0 \<and> length failedL > 0
        then AllFailed (js ''All transfers failed'') failedL
        else Success successful (if length failedL > 0 then Some failedL else None))"

subsection \<open>A sample instance of the library\<close>

text \<open>
  For the concrete runs below: \<open>sampleIsAddress\<close> accepts \<open>0x\<close> and forty hexadecimal digits
  (what \<open>ethers.isAddress\<close> does on a string whose letters are all of one case),
  \<open>asciiLower\<close> lowercases the ASCII letters, and the sample network records the recipient of
  every transfer it is asked for and refuses the address \<open>0x22...2\<close>.
\<close>

definition sampleIsAddress :: "jsstring \<Rightarrow> bool" where
  "sampleIsAddress s = (length s = 42 \<and> startsWith s (js ''0x'') \<and> list_all isHexDigit (drop 2 s))"

definition asciiLower :: "jschar \<Rightarrow> jschar" where
  "asciiLower c = (if 65 \<le> c \<and> c \<le> 90 then c + 32 else c)"

definition addr1 :: jsstring where
  "addr1 = js ''0x1111111111111111111111111111111111111111''"

definition addr2 :: jsstring where
  "addr2 = js ''0x2222222222222222222222222222222222222222''"

definition addrUpper :: jsstring where
  "addrUpper = js ''0xABCDEFABCDEFABCDEFABCDEFABCDEFABCDEFABCD''"

definition addrLower :: jsstring where
  "addrLower = js ''0xabcdefabcdefabcdefabcdefabcdefabcdefabcd''"

definition sampleTransfer ::
  "jsval list \<Rightarrow> jsval \<Rightarrow> jsval \<Rightarrow> int \<Rightarrow> (jsstring + jsstring) \<times> jsval list" where
  "sampleTransfer net token r amount =
     (if r = JString addr2 then Inl (js ''execution reverted'') else Inr (js ''0xfeed''), net @ [r])"

definition sampleExternals :: "jsval list externals" where
  "sampleExternals =
     \<lparr>isAddress = sampleIsAddress, toLowerCase = map asciiLower,
      newWallet = (\<lambda>k. True), transfer = sampleTransfer\<rparr>"

subsection \<open>The strict format, in the words of the specification\<close>

text \<open>
  A recipient is well formed when it is a string, non-empty, \<open>0x\<close>-prefixed, exactly 42
  characters long and accepted by \<open>ethers.isAddress\<close>. \<open>lowercased\<close> is what
  \<open>r.toLowerCase()\<close> makes of a recipient that is a string.
\<close>

definition strictFormat :: "'net externals \<Rightarrow> jsval \<Rightarrow> bool" where
  "strictFormat L r =
     (case r of
        JOther \<Rightarrow> False
      | JString s \<Rightarrow> s \<noteq> [] \<and> startsWith s (js ''0x'') \<and> length s = 42 \<and> isAddress L s)"

definition lowercased :: "'net externals \<Rightarrow> jsval \<Rightarrow> jsval" where
  "lowercased L r = (case r of JOther \<Rightarrow> JOther | JString s \<Rightarrow> JString (toLowerCase L s))"

subsection \<open>The outcomes of the transfers\<close>

text \<open>
  To say which transfers succeeded: \<open>transferResults\<close> is the outcome of the transfer of
  each recipient, in order, on the network as the earlier transfers left it;
  \<open>sentEntries\<close> and \<open>failedEntries\<close> are the entries that the recipients with a
  successful and with a failed transfer should have.
\<close>

fun transferResults ::
  "'net externals \<Rightarrow> 'net \<Rightarrow> jsval \<Rightarrow> int \<Rightarrow> jsval list \<Rightarrow> (jsstring + jsstring) list" where
  "transferResults L net token amount [] = []"
| "transferResults L net token amount (r # rs) =
     (case transfer L net token r amount of
        (res, net') \<Rightarrow> res # transferResults L net' token amount rs)"

fun sentEntries :: "(jsval \<times> (jsstring + jsstring)) list \<Rightarrow> outcome list" where
  "sentEntries [] = []"
| "sentEntries ((r, Inr h) # xs) = Sent r h # sentEntries xs"
| "sentEntries ((r, Inl msg) # xs) = sentEntries xs"

fun failedEntries :: "(jsval \<times> (jsstring + jsstring)) list \<Rightarrow> outcome list" where
  "failedEntries [] = []"
| "failedEntries ((r, Inr h) # xs) = failedEntries xs"
| "failedEntries ((r, Inl msg) # xs) = Failed r msg # failedEntries xs"

section \<open>Compiler Adapter\<close>

text \<open>
  The compiler is a black box: the model starts from the value of
  \<open>JSON.parse(solc.compile(...))\<close>. Its \<open>errors\<close> field is absent or an array of
  diagnostics; its \<open>contracts\<close> field is absent or maps a file name to the contracts of the
  file, by name, kept here in the order of \<open>Object.keys\<close>. Of a compiled contract the
  code reads \<open>abi\<close> and \<open>evm.bytecode.object\<close>; the ABI is opaque.
\<close>

record 'abi compiled =
  compiledAbi :: 'abi
  bytecodeObject :: jsstring

record diagnostic =
  severity :: jsstring
  message :: jsstring
  formattedMessage :: jsstring

record 'c solc_output =
  errors :: "diagnostic list option"
  contracts :: "(jsstring \<times> (jsstring \<times> 'c) list) list option"

text \<open>
  An exception: an \<open>Error\<close> with its message, the TypeError of reading a property of
  undefined, or the error of the file system module for a file that cannot be read.
\<close>

datatype js_error = Error jsstring | TypeError | SystemError

text \<open>\<open>Array.prototype.join\<close> on an array of strings.\<close>

fun joinWith :: "jsstring \<Rightarrow> jsstring list \<Rightarrow> jsstring" where
  "joinWith sep [] = []"
| "joinWith sep [x] = x"
| "joinWith sep (x # y # ys) = x @ sep @ joinWith sep (y # ys)"

text \<open>
  Reading a property of an object that \<open>JSON.parse\<close> made. The object has its own
  properties, those of the JSON text, and inherits the properties of \<open>Object.prototype\<close>:
  \<open>obj[k]\<close> is the own property \<open>k\<close> if there is one, else the inherited one if \<open>k\<close> is one
  of the twelve names below, else \<open>undefined\<close>. The inherited values are functions, and
  \<open>Object.prototype\<close> itself for \<open>__proto__\<close>: all of them truthy, none with a property
  \<open>abi\<close> or \<open>evm\<close>.
\<close>

definition objectPrototypeProperties :: "jsstring list" where
  "objectPrototypeProperties =
     map js [''constructor'', ''__defineGetter__'', ''__defineSetter__'', ''hasOwnProperty'',
             ''__lookupGetter__'', ''__lookupSetter__'', ''isPrototypeOf'',
             ''propertyIsEnumerable'', ''toString'', ''valueOf'', ''__proto__'',
             ''toLocaleString'']"

datatype 'c property = Own 'c | Inherited jsstring

definition getProperty :: "(jsstring \<times> 'c) list \<Rightarrow> jsstring \<Rightarrow> 'c property option" where
  "getProperty obj k =
     (case map_of obj k of
        Some v \<Rightarrow> Some (Own v)
      | None \<Rightarrow> if k \<in> set objectPrototypeProperties then Some (Inherited k) else None)"

text \<open>
  \<open>compileSolidity\<close> of \<^verbatim>\<open>fixed-solc-plugin.cjs\<close>, after the call of the compiler. With an
  error among the diagnostics it throws the messages of all the diagnostics, joined by line
  feeds. Otherwise (\<open>findContract\<close>, the part under \<^verbatim>\<open>// Find the contract\<close>) it reads the
  property \<open>contractName\<close> of the contracts of \<^verbatim>\<open>contract.sol\<close> and returns it as it is when
  it is there, an inherited one too; when it is not, it falls back to the first of
  \<open>Object.keys\<close>, the own properties. \<^verbatim>\<open>contract.sol\<close> is not a name of \<open>Object.prototype\<close>,
  so that the file is an own property of \<open>output.contracts\<close> or \<open>undefined\<close>.
\<close>

definition findContract ::
  "'abi compiled solc_output \<Rightarrow> jsstring \<Rightarrow> js_error + 'abi compiled property" where
  "findContract output contractName =
     (case contracts output of
        None \<Rightarrow> Inl TypeError
      | Some files \<Rightarrow>
          (case map_of files (js ''contract.sol'') of
             None \<Rightarrow> Inl TypeError
           | Some cs \<Rightarrow>
               (case getProperty cs contractName of
                  Some compiledContract \<Rightarrow> Inr compiledContract
                | None \<Rightarrow>
                    (case cs of
                       [] \<Rightarrow> Inl (Error (js ''No compiled contracts found''))
                     | (contractKey, c) # _ \<Rightarrow>
                         if contractKey = [] then Inl (Error (js ''No compiled contracts found''))
                         else Inr (Own c)))))"

definition compileSolidity ::
  "'abi compiled solc_output \<Rightarrow> jsstring \<Rightarrow> js_error + 'abi compiled property" where
  "compileSolidity output contractName =
     (case errors output of
        Some es \<Rightarrow>
          if list_ex (\<lambda>e. severity e = js ''error'') es
          then Inl (Error (js ''Compilation failed: '' @ joinWith (js ''\<newline>'') (map message es)))
          else findContract output contractName
      | None \<Rightarrow> findContract output contractName)"

text \<open>
  \<open>compileSolidity\<close> of the deployer embedded in \<^verbatim>\<open>simple-mcp-plugin-v2.cjs\<close>, after the
  compiler has been loaded and called. It throws the formatted messages of the diagnostics
  of severity \<open>error\<close>. Otherwise (\<open>findContract_deployer\<close>, the part under
  \<^verbatim>\<open>// Get the compiled contract\<close>) it reads the property \<open>contractName\<close> of the contracts of
  the file \<open>contractName.sol\<close>: without one it throws \<open>not found\<close>; of an own one it returns
  the ABI and the object code with \<open>0x\<close> in front; an inherited one passes the test and has
  no \<open>evm\<close>, so that reading \<open>evm.bytecode\<close> throws a TypeError. No name of
  \<open>Object.prototype\<close> ends in \<^verbatim>\<open>.sol\<close>, so that the file is an own property of
  \<open>output.contracts\<close> or \<open>undefined\<close>.
\<close>

definition findContract_deployer ::
  "'abi compiled solc_output \<Rightarrow> jsstring \<Rightarrow> js_error + 'abi \<times> jsstring" where
  "findContract_deployer output contractName =
     (case contracts output of
        None \<Rightarrow> Inl TypeError
      | Some files \<Rightarrow>
          (case map_of files (contractName @ js ''.sol'') of
             None \<Rightarrow> Inl TypeError
           | Some cs \<Rightarrow>
               (case getProperty cs contractName of
                  None \<Rightarrow>
                    Inl (Error (js ''Contract '' @ contractName
                                  @ js '' not found in the compiled output''))
                | Some (Inherited k) \<Rightarrow> Inl TypeError
                | Some (Own compiledContract) \<Rightarrow>
                    Inr (compiledAbi compiledContract,
                         js ''0x'' @ bytecodeObject compiledContract))))"

definition compileSolidity_deployer ::
  "'abi compiled solc_output \<Rightarrow> jsstring \<Rightarrow> js_error + 'abi \<times> jsstring" where
  "compileSolidity_deployer output contractName =
     (case errors output of
        Some es \<Rightarrow>
          (let errs = filter (\<lambda>e. severity e = js ''error'') es in
           if length errs > 0
           then Inl (Error (js ''Compilation errors:\<newline>''
                              @ joinWith (js ''\<newline>'') (map formattedMessage errs)))
           else findContract_deployer output contractName)
      | None \<Rightarrow> findContract_deployer output contractName)"

text \<open>The diagnostics of an output, and whether one of them is an error.\<close>

definition diagnostics :: "'c solc_output \<Rightarrow> diagnostic list" where
  "diagnostics output = (case errors output of None \<Rightarrow> [] | Some es \<Rightarrow> es)"

definition hasErrorDiagnostic :: "'c solc_output \<Rightarrow> bool" where
  "hasErrorDiagnostic output = list_ex (\<lambda>e. severity e = js ''error'') (diagnostics output)"

text \<open>
  Sample outputs: a warning and an error; a clean compilation of a contract \<open>Foo\<close>; and
  the output for a source without any contract, warnings and no \<open>contracts\<close> field.
\<close>

definition sampleWarning :: diagnostic where
  "sampleWarning =
     \<lparr>severity = js ''warning'', message = js ''Unused variable.'',
      formattedMessage = js ''Warning: Unused variable.''\<rparr>"

definition sampleError :: diagnostic where
  "sampleError =
     \<lparr>severity = js ''error'', message = js ''Expected ;'',
      formattedMessage = js ''ParserError: Expected ;''\<rparr>"

definition failedOutput :: "nat compiled solc_output" where
  "failedOutput = \<lparr>errors = Some [sampleWarning, sampleError], contracts = None\<rparr>"

definition sampleContract :: "nat compiled" where
  "sampleContract = \<lparr>compiledAbi = 7, bytecodeObject = js ''6080''\<rparr>"

definition cleanOutput :: "jsstring \<Rightarrow> nat compiled solc_output" where
  "cleanOutput file =
     \<lparr>errors = Some [sampleWarning], contracts = Some [(file, [(js ''Foo'', sampleContract)])]\<rparr>"

definition commentOnlyOutput :: "nat compiled solc_output" where
  "commentOnlyOutput = \<lparr>errors = Some [sampleWarning], contracts = None\<rparr>"

section \<open>Deployment Executor\<close>

text \<open>
  The calls of the wallet and RPC library are inputs of the model, each as the outcome it
  has in the run at hand, an error being the text the code reports for it (its message):
  \<open>accountError\<close> is the message of the error thrown by
  \<open>privateKeyToAccount\<close>, if it throws; \<open>gasOutcome\<close> is that of the encoding of the
  constructor arguments and of \<open>estimateGas\<close> (the embedded deployer alone makes them);
  \<open>sendOutcome\<close> is the transaction hash returned by \<open>walletClient.deployContract\<close>, or the
  message of its error; \<open>receiptOutcome\<close> is the \<open>contractAddress\<close> of the receipt returned
  by \<open>waitForTransactionReceipt\<close> (\<open>None\<close> when it is null or undefined), or the message
  of its error.
\<close>

record chain =
  accountError :: "jsstring option"
  gasOutcome :: "jsstring + unit"
  sendOutcome :: "jsstring + jsstring"
  receiptOutcome :: "jsstring + jsstring option"

subsection \<open>Artifact documents and files\<close>

text \<open>
  An artifact file holds a JSON document with the keys below; a key may be absent. The
  model stores the document itself, so \<open>JSON.parse\<close> of the text written by
  \<open>JSON.stringify\<close> is taken to give the value back. A path is the pair of a directory
  and a file name (contract names have no separator), and the file system a list of files,
  read by path only. The order in which the operating system lists a directory is not a
  function of that list: where the code lists the artifacts directory, the listing is an
  input of the model.
\<close>

record 'abi document =
  contractName :: jsstring
  address :: jsstring
  abi :: 'abi
  transactionHash :: "jsstring option"
  network :: "jsstring option"
  chainId :: "nat option"
  explorerUrl :: "jsstring option"
  deployedAt :: "jsstring option"

type_synonym path = "jsstring \<times> jsstring"
type_synonym 'abi filesystem = "(path \<times> 'abi document) list"

definition joinPath :: "jsstring \<Rightarrow> jsstring \<Rightarrow> jsstring" where
  "joinPath dir name = dir @ js ''/'' @ name"

definition writeFileSync :: "'abi filesystem \<Rightarrow> path \<Rightarrow> 'abi document \<Rightarrow> 'abi filesystem" where
  "writeFileSync fs p d = (p, d) # filter (\<lambda>(q, e). q \<noteq> p) fs"

definition readFileSync :: "'abi filesystem \<Rightarrow> path \<Rightarrow> 'abi document option" where
  "readFileSync fs p = map_of fs p"

subsection \<open>The generated deploy script\<close>

text \<open>
  What the deploy script prints as its JSON result: \<open>{success: false, error}\<close>, with the
  \<open>transactionHash\<close> where the script adds it, or \<open>{success: true, address, transactionHash,
  chainId, contractName, explorerUrl}\<close>, with the \<open>artifactPath\<close> when artifacts are saved.
\<close>

datatype deployment_result =
    Failure (errorText: jsstring) (failedTransaction: "jsstring option")
  | Deployed (deployedAddress: jsstring) (deployedTransaction: jsstring) nat jsstring jsstring
      (artifactPath: "path option")

definition explorerUrlOf :: "jsstring \<Rightarrow> jsstring" where
  "explorerUrlOf hash = js ''https://explorer.testnet.monad.xyz/tx/'' @ hash"

text \<open>
  \<open>deployContract\<close> of the script generated by \<^verbatim>\<open>monad-mcp/src/index.ts\<close>. \<open>compileResult\<close>
  is the outcome of the compilation step: the text of its failure, or the ABI and the
  bytecode. The script writes the artifact under the directory for temporary files.
\<close>

definition deployContract_script ::
  "chain \<Rightarrow> jsstring \<Rightarrow> jsstring option \<Rightarrow> jsstring + 'abi \<times> jsstring \<Rightarrow> jsstring \<Rightarrow> bool
     \<Rightarrow> 'abi filesystem \<Rightarrow> deployment_result \<times> 'abi filesystem" where
  "deployContract_script W tmpdir PRIVATE_KEY compileResult CONTRACT_NAME SAVE_ARTIFACTS fs =
     (if PRIVATE_KEY = None \<or> PRIVATE_KEY = Some []
      then (Failure (js ''PRIVATE_KEY not found in env.js'') None, fs)
      else (case compileResult of
        Inl e \<Rightarrow> (Failure e None, fs)
      | Inr (abiC, bytecode) \<Rightarrow>
          (case accountError W of
             Some msg \<Rightarrow> (Failure msg None, fs)
           | None \<Rightarrow>
               (case sendOutcome W of
                  Inl msg \<Rightarrow> (Failure (js ''Transaction failed: '' @ msg) None, fs)
                | Inr hash \<Rightarrow>
                    (case receiptOutcome W of
                       Inl msg \<Rightarrow>
                         (Failure (js ''Failed to get transaction receipt: '' @ msg) (Some hash), fs)
                     | Inr receiptAddress \<Rightarrow>
                         if receiptAddress = None \<or> receiptAddress = Some []
                         then (Failure
                                 (js ''Contract deployment failed - no contract address in receipt'')
                                 (Some hash), fs)
                         else if SAVE_ARTIFACTS
                         then (let p = (joinPath tmpdir (js ''monad-deployments''),
                                        CONTRACT_NAME @ js ''.json'')
                               in (Deployed (the receiptAddress) hash 10143 CONTRACT_NAME
                                     (explorerUrlOf hash) (Some p),
                                   writeFileSync fs p
                                     \<lparr>contractName = CONTRACT_NAME, address = the receiptAddress,
                                      abi = abiC, transactionHash = Some hash,
                                      network = Some (js ''monad-testnet''), chainId = Some 10143,
                                      explorerUrl = Some (explorerUrlOf hash), deployedAt = None\<rparr>))
                         else (Deployed (the receiptAddress) hash 10143 CONTRACT_NAME
                                 (explorerUrlOf hash) None, fs))))))"

subsection \<open>The embedded deployer\<close>

text \<open>
  \<open>deployContract\<close> of the deployer embedded in \<^verbatim>\<open>simple-mcp-plugin-v2.cjs\<close>: it returns the
  address and the transaction hash, or throws. Whatever is thrown inside its \<open>try\<close> is thrown
  again as \<open>Deployment error: \<close> and the message. \<open>normalizeKey\<close> is
  \<open>privateKey.replace(/^0x/, '')\<close>, and the key must then be 64 hexadecimal digits.
\<close>

definition normalizeKey :: "jsstring \<Rightarrow> jsstring" where
  "normalizeKey privateKey =
     (if startsWith privateKey (js ''0x'') then drop 2 privateKey else privateKey)"

definition deployContract_deployer :: "chain \<Rightarrow> jsstring \<Rightarrow> js_error + jsstring \<times> jsstring" where
  "deployContract_deployer W privateKey =
     (if privateKey = []
      then Inl (Error (js (''Private key is required for deployment. ''
              @ ''Please check your .env file or pass a private key parameter.'')))
      else (let normalizedKey = normalizeKey privateKey
        in if \<not> (length normalizedKey = 64 \<and> list_all isHexDigit normalizedKey)
           then Inl (Error (js (''Invalid private key format. ''
                  @ ''The private key must be a 64-character hex string.'')))
           else (case accountError W of
             Some msg \<Rightarrow> Inl (Error msg)
           | None \<Rightarrow>
               (case gasOutcome W of
                  Inl msg \<Rightarrow> Inl (Error (js ''Deployment error: '' @ msg))
                | Inr u \<Rightarrow>
                    (case sendOutcome W of
                       Inl msg \<Rightarrow> Inl (Error (js ''Deployment error: '' @ msg))
                     | Inr hash \<Rightarrow>
                         (case receiptOutcome W of
                            Inl msg \<Rightarrow> Inl (Error (js ''Deployment error: '' @ msg))
                          | Inr receiptAddress \<Rightarrow>
                              if receiptAddress = None \<or> receiptAddress = Some []
                              then Inl (Error (js ''Deployment error: ''
                                     @ js ''Contract deployment failed - no contract address in receipt''))
                              else Inr (the receiptAddress, hash)))))))"

text \<open>\<open>saveContractArtifacts\<close> of the embedded deployer; it returns the path.\<close>

definition saveContractArtifacts ::
  "jsstring \<Rightarrow> 'abi filesystem \<Rightarrow> jsstring \<Rightarrow> 'abi \<Rightarrow> jsstring \<Rightarrow> path \<times> 'abi filesystem" where
  "saveContractArtifacts tmpdir fs name abiC addr =
     (let artifactPath = (joinPath tmpdir (js ''monad-deployments''), name @ js ''.json'')
      in (artifactPath,
          writeFileSync fs artifactPath
            \<lparr>contractName = name, address = addr, abi = abiC, transactionHash = None,
             network = Some (js ''monad-testnet''), chainId = None, explorerUrl = None,
             deployedAt = None\<rparr>))"

text \<open>
  The saving step of \<open>deployContract\<close> in the deploy utility at the root of the repository
  (\<^verbatim>\<open>part_008\<close>), which writes under the \<^verbatim>\<open>artifacts\<close> directory next to the script.
\<close>

definition saveArtifacts_deployUtility ::
  "jsstring \<Rightarrow> 'abi filesystem \<Rightarrow> jsstring \<Rightarrow> 'abi \<Rightarrow> jsstring \<Rightarrow> jsstring \<Rightarrow> path \<times> 'abi filesystem" where
  "saveArtifacts_deployUtility dirname fs name abiC addr now =
     (let artifactPath = (joinPath dirname (js ''artifacts''), name @ js ''.json'')
      in (artifactPath,
          writeFileSync fs artifactPath
            \<lparr>contractName = name, address = addr, abi = abiC, transactionHash = None,
             network = None, chainId = None, explorerUrl = None, deployedAt = Some now\<rparr>))"

text \<open>
  The loop of \<open>loadContract\<close> over the files of the artifacts directory, in the order in
  which they are listed: the first \<^verbatim>\<open>.json\<close> file whose address is the one looked for,
  without regard to case, gives the ABI. Reading a listed file that is not there throws.
\<close>

fun findAbiByAddress ::
  "(jsstring \<Rightarrow> jsstring) \<Rightarrow> 'abi filesystem \<Rightarrow> jsstring \<Rightarrow> jsstring \<Rightarrow> jsstring list
     \<Rightarrow> js_error + 'abi option" where
  "findAbiByAddress lower fs dir addr [] = Inr None"
| "findAbiByAddress lower fs dir addr (file # files) =
     (if suffix (js ''.json'') file
      then (case readFileSync fs (dir, file) of
              None \<Rightarrow> Inl SystemError
            | Some artifact \<Rightarrow>
                if address artifact \<noteq> [] \<and> lower (address artifact) = lower addr
                then Inr (Some (abi artifact))
                else findAbiByAddress lower fs dir addr files)
      else findAbiByAddress lower fs dir addr files)"

text \<open>
  \<open>loadContract\<close> of \<^verbatim>\<open>interact-contract.js\<close>, of whose result the model keeps \<open>address\<close>
  and \<open>abi\<close> (\<open>read\<close> and \<open>write\<close> are closures over them). An argument that starts with
  \<open>0x\<close> is an address, looked for in the files of the artifacts directory; any other is a
  contract name. \<open>listing\<close> is what \<open>fs.readdirSync\<close> returns for the artifacts
  directory, in the order of the operating system, and \<open>None\<close> when \<open>fs.existsSync\<close>
  says that the directory does not exist; \<open>lower\<close> is \<open>String.prototype.toLowerCase\<close>.
\<close>

definition loadContract ::
  "(jsstring \<Rightarrow> jsstring) \<Rightarrow> jsstring list option \<Rightarrow> jsstring \<Rightarrow> 'abi filesystem \<Rightarrow> jsstring
     \<Rightarrow> js_error + jsstring \<times> 'abi" where
  "loadContract lower listing dirname fs contractNameOrAddress =
     (if startsWith contractNameOrAddress (js ''0x'')
      then (case (case listing of
                    None \<Rightarrow> Inr None
                  | Some files \<Rightarrow>
                      findAbiByAddress lower fs (joinPath dirname (js ''artifacts''))
                        contractNameOrAddress files) of
              Inl e \<Rightarrow> Inl e
            | Inr None \<Rightarrow>
                Inl (Error (js ''Could not find ABI for contract at '' @ contractNameOrAddress))
            | Inr (Some abiC) \<Rightarrow> Inr (contractNameOrAddress, abiC))
      else (case readFileSync fs (joinPath dirname (js ''artifacts''),
                                  contractNameOrAddress @ js ''.json'') of
              None \<Rightarrow>
                Inl (Error (js ''Contract artifacts not found for '' @ contractNameOrAddress))
            | Some artifact \<Rightarrow> Inr (address artifact, abi artifact)))"

text \<open>Sample runs: a confirmed transaction whose receipt has no contract address.\<close>

definition confirmedWithoutAddress :: chain where
  "confirmedWithoutAddress =
     \<lparr>accountError = None, gasOutcome = Inr (), sendOutcome = Inr (js ''0xabc123''),
      receiptOutcome = Inr None\<rparr>"

definition confirmedDeployment :: chain where
  "confirmedDeployment =
     \<lparr>accountError = None, gasOutcome = Inr (), sendOutcome = Inr (js ''0xabc123''),
      receiptOutcome = Inr (Some addr1)\<rparr>"

definition sampleKey :: jsstring where
  "sampleKey = js ''0x0123456789abcdef0123456789abcdef0123456789abcdef0123456789abcdef''"

section \<open>Version Normalizer\<close>

subsection \<open>The regular expressions\<close>

text \<open>
  The class \<open>\s\<close> of a JavaScript regular expression without the \<open>u\<close> flag: the white space
  and line terminator code units.
\<close>

definition isWhiteSpace :: "jschar \<Rightarrow> bool" where
  "isWhiteSpace c =
     (c = 0x9 \<or> c = 0xA \<or> c = 0xB \<or> c = 0xC \<or> c = 0xD \<or> c = 0x20 \<or> c = 0xA0 \<or> c = 0x1680
      \<or> (0x2000 \<le> c \<and> c \<le> 0x200A) \<or> c = 0x2028 \<or> c = 0x2029 \<or> c = 0x202F \<or> c = 0x205F
      \<or> c = 0x3000 \<or> c = 0xFEFF)"

text \<open>
  A backtracking matcher gives, for the text at the current position, the texts left after
  each way to match, in the order in which the engine tries them. \<open>lit\<close> is a literal,
  \<open>plus P\<close> the greedy \<open>[P]+\<close> (the longest run first, then one character less at each
  backtrack), \<open>star P\<close> the greedy \<open>[P]*\<close>.
\<close>

definition lit :: "jsstring \<Rightarrow> jsstring \<Rightarrow> jsstring list" where
  "lit l s = (if startsWith s l then [drop (length l) s] else [])"

fun plus :: "(jschar \<Rightarrow> bool) \<Rightarrow> jsstring \<Rightarrow> jsstring list" where
  "plus P [] = []"
| "plus P (c # s) = (if P c then plus P s @ [s] else [])"

definition star :: "(jschar \<Rightarrow> bool) \<Rightarrow> jsstring \<Rightarrow> jsstring list" where
  "star P s = plus P s @ [s]"

text \<open>
  \<open>/pragma\s+solidity\s+([^;]+);/\<close> at the start of a text: for each way to match, the
  capture of group 1 and the text after the match.
\<close>

definition pragmaRegex :: "jsstring \<Rightarrow> (jsstring \<times> jsstring) list" where
  "pragmaRegex s =
     [(take (length s4 - length s5) s4, s6).
        s1 \<leftarrow> lit (js ''pragma'') s, s2 \<leftarrow> plus isWhiteSpace s1,
        s3 \<leftarrow> lit (js ''solidity'') s2, s4 \<leftarrow> plus isWhiteSpace s3,
        s5 \<leftarrow> plus (\<lambda>c. c \<noteq> of_char CHR '';'') s4, s6 \<leftarrow> lit (js '';'') s5]"

text \<open>
  \<open>/(\/\/\s*SPDX-License-Identifier:[^\n]+\n)/\<close> at the start of a text: the matched
  text, which is group 1, and the text after the match.
\<close>

definition spdxRegex :: "jsstring \<Rightarrow> (jsstring \<times> jsstring) list" where
  "spdxRegex s =
     [(take (length s - length s5) s, s5).
        s1 \<leftarrow> lit (js ''//'') s, s2 \<leftarrow> star isWhiteSpace s1,
        s3 \<leftarrow> lit (js ''SPDX-License-Identifier:'') s2,
        s4 \<leftarrow> plus (\<lambda>c. c \<noteq> of_char CHR ''\<newline>'') s3, s5 \<leftarrow> lit (js ''\<newline>'') s4]"

text \<open>
  \<open>String.prototype.match\<close> with a regular expression without the \<open>g\<close> flag: the first
  position, from the left, at which the expression matches, and there the first way to
  match. The result is the text before the match, the capture, and the text after the match.
\<close>

fun regexExec ::
  "(jsstring \<Rightarrow> ('g \<times> jsstring) list) \<Rightarrow> jsstring \<Rightarrow> jsstring \<Rightarrow> (jsstring \<times> 'g \<times> jsstring) option" where
  "regexExec m front [] =
     (case m [] of [] \<Rightarrow> None | (g, rest) # _ \<Rightarrow> Some (front, g, rest))"
| "regexExec m front (c # s) =
     (case m (c # s) of
        [] \<Rightarrow> regexExec m (front @ [c]) s
      | (g, rest) # _ \<Rightarrow> Some (front, g, rest))"

subsection \<open>Replacement by a string pattern\<close>

text \<open>
  \<open>GetSubstitution\<close> for a pattern that is a string, hence without captures: in the
  replacement, \<open>$$\<close> stands for a dollar, \<open>$&\<close> for the matched text, \<open>$`\<close> for the text
  before the match and \<open>$'\<close> for the text after it; any other dollar stands for itself.
\<close>

fun getSubstitution :: "jsstring \<Rightarrow> jsstring \<Rightarrow> jsstring \<Rightarrow> jsstring \<Rightarrow> jsstring" where
  "getSubstitution matched front back [] = []"
| "getSubstitution matched front back [c] = [c]"
| "getSubstitution matched front back (c # d # t) =
     (if c = of_char CHR ''$'' \<and> d = of_char CHR ''$''
      then of_char CHR ''$'' # getSubstitution matched front back t
      else if c = of_char CHR ''$'' \<and> d = of_char CHR ''&''
      then matched @ getSubstitution matched front back t
      else if c = of_char CHR ''$'' \<and> d = of_char CHR ''`''
      then front @ getSubstitution matched front back t
      else if c = of_char CHR ''$'' \<and> d = 0x27
      then back @ getSubstitution matched front back t
      else c # getSubstitution matched front back (d # t))"

text \<open>
  \<open>source.replace(pattern, replacement)\<close> with two strings: the first occurrence of the
  pattern, if there is one, is replaced by the expansion of the replacement.
\<close>

definition replaceString :: "jsstring \<Rightarrow> jsstring \<Rightarrow> jsstring \<Rightarrow> jsstring" where
  "replaceString source pattern replacement =
     (case regexExec (\<lambda>s. map (Pair ()) (lit pattern s)) [] source of
        None \<Rightarrow> source
      | Some (front, u, back) \<Rightarrow>
          front @ getSubstitution pattern front back replacement @ back)"

subsection \<open>The two normalizers\<close>

text \<open>The contract returned for an input that is empty or not a string.\<close>

definition fallbackSource :: jsstring where
  "fallbackSource =
     js (''// SPDX-License-Identifier: MIT\<newline>pragma solidity 0.8.28;\<newline>\<newline>''
       @ ''contract SimpleStorage {\<newline>    uint256 private value;\<newline>''
       @ ''    function setValue(uint256 _newValue) public { value = _newValue; }\<newline>''
       @ ''    function getValue() public view returns (uint256) { return value; }\<newline>}'')"

definition fallbackSourceWithEvent :: jsstring where
  "fallbackSourceWithEvent =
     js (''// SPDX-License-Identifier: MIT\<newline>pragma solidity 0.8.28;\<newline>\<newline>''
       @ ''contract SimpleStorage {\<newline>    uint256 private value;\<newline>    \<newline>''
       @ ''    event ValueChanged(uint256 newValue);\<newline>    \<newline>''
       @ ''    function setValue(uint256 _newValue) public {\<newline>''
       @ ''        value = _newValue;\<newline>        emit ValueChanged(_newValue);\<newline>    }\<newline>''
       @ ''    \<newline>    function getValue() public view returns (uint256) {\<newline>''
       @ ''        return value;\<newline>    }\<newline>}'')"

definition requiredPragma :: jsstring where
  "requiredPragma = js ''pragma solidity 0.8.28;''"

text \<open>
  \<open>forceVersion\<close> of \<^verbatim>\<open>fixed-solc-plugin.cjs\<close> (and of the multi-tool plugins). The
  replacement \<open>pragma solidity 0.8.28;\<close> has no dollar, so it is inserted as it is.
\<close>

definition forceVersion :: "jsval \<Rightarrow> jsstring" where
  "forceVersion source =
     (case source of
        JOther \<Rightarrow> fallbackSource
      | JString s \<Rightarrow>
          if s = [] then fallbackSource
          else (case regexExec pragmaRegex [] s of
                  Some (front, originalVersion, back) \<Rightarrow> front @ requiredPragma @ back
                | None \<Rightarrow> requiredPragma @ js ''\<newline>\<newline>'' @ s))"

text \<open>\<open>forceCorrectVersion\<close> of \<^verbatim>\<open>simple-mcp-plugin-v2.cjs\<close>, which looks for an SPDX comment.\<close>

definition forceCorrectVersion :: "jsval \<Rightarrow> jsstring" where
  "forceCorrectVersion source =
     (case source of
        JOther \<Rightarrow> fallbackSourceWithEvent
      | JString s \<Rightarrow>
          if s = [] then fallbackSourceWithEvent
          else (case regexExec pragmaRegex [] s of
                  Some (front, originalVersion, back) \<Rightarrow> front @ requiredPragma @ back
                | None \<Rightarrow>
                    (case regexExec spdxRegex [] s of
                       Some (front, spdxMatch, back) \<Rightarrow>
                         replaceString s spdxMatch
                           (spdxMatch @ js ''\<newline>'' @ requiredPragma @ js ''\<newline>'')
                     | None \<Rightarrow> requiredPragma @ js ''\<newline>\<newline>'' @ s)))"

text \<open>A sample source with a license comment and no directive.\<close>

definition licensedSource :: jsstring where
  "licensedSource = js ''// SPDX-License-Identifier: MIT\<newline>contract A {}''"
section \<open>Properties of the Token Transfer Batch Runner\<close>

lemma checkRecipient_None_iff: "checkRecipient L r = None \<longleftrightarrow> strictFormat L r"
  by (cases r) (auto simp: checkRecipient_def strictFormat_def)


lemma validateRecipients_None_iff:
  "validateRecipients L rs = None \<longleftrightarrow> list_all (strictFormat L) rs"
  by (induction rs) (auto simp: checkRecipient_None_iff[symmetric] split: option.splits)

lemma normalizeRecipients_Inr:
  "normalizeRecipients L rs = Inr ns \<Longrightarrow> ns = map (lowercased L) rs \<and> JOther \<notin> set rs"
  by (induction L rs arbitrary: ns rule: normalizeRecipients.induct)
     (auto simp: lowercased_def split: sum.splits)

lemma validateInput_Inr:
  assumes "validateInput L key tok rcp amt = Inr ns"
  shows "\<exists>rs. rcp = Array rs \<and> rs \<noteq> [] \<and> ns = map (lowercased L) rs \<and> JOther \<notin> set rs
           \<and> list_all (strictFormat L) ns \<and> 0 < amt \<and> \<not> invalidTokenAddress L tok"
  using assms
  by (auto simp: validateInput_def validateRecipients_None_iff[symmetric]
      dest!: normalizeRecipients_Inr split: option.splits if_splits recipients_arg.splits sum.splits)

lemma validateInput_part011_Inr:
  assumes "validateInput_part011 L tok rcp amt = Inr ns"
  shows "rcp = Array ns \<and> ns \<noteq> [] \<and> list_all (strictFormat L) ns \<and> 0 < amt \<and> \<not> invalidTokenAddress L tok"
  using assms
  by (auto simp: validateInput_part011_def validateRecipients_None_iff[symmetric]
      split: option.splits if_splits recipients_arg.splits sum.splits)

lemma transferLoop_acc:
  "transferLoop L net tok amt rs S F = (S', F', net') \<Longrightarrow>
   \<exists>S2 F2. S' = S @ S2 \<and> F' = F @ F2 \<and> rs \<in> shuffles (map to S2) (map to F2)
     \<and> list_all is_Sent S2 \<and> list_all is_Failed F2"
proof (induction rs arbitrary: net S F)
  case Nil
  then show ?case by simp
next
  case (Cons r rs)
  obtain res net1 where t: "transfer L net tok r amt = (res, net1)" by (cases "transfer L net tok r amt")
  show ?case
  proof (cases res)
    case (Inl msg)
    with Cons.prems t have "transferLoop L net1 tok amt rs S (F @ [Failed r msg]) = (S', F', net')" by simp
    from Cons.IH[OF this] obtain S2 F2 where
      h: "S' = S @ S2" "F' = (F @ [Failed r msg]) @ F2" "rs \<in> shuffles (map to S2) (map to F2)"
         "list_all is_Sent S2" "list_all is_Failed F2" by blast
    have "r # rs \<in> shuffles (map to S2) (map to (Failed r msg # F2))"
      using h(3) by (simp add: Cons_in_shuffles_rightI)
    with h show ?thesis by (intro exI[of _ S2] exI[of _ "Failed r msg # F2"]) simp
  next
    case (Inr hh)
    with Cons.prems t have "transferLoop L net1 tok amt rs (S @ [Sent r hh]) F = (S', F', net')" by simp
    from Cons.IH[OF this] obtain S2 F2 where
      h: "S' = (S @ [Sent r hh]) @ S2" "F' = F @ F2" "rs \<in> shuffles (map to S2) (map to F2)"
         "list_all is_Sent S2" "list_all is_Failed F2" by blast
    have "r # rs \<in> shuffles (map to (Sent r hh # S2)) (map to F2)"
      using h(3) by (simp add: Cons_in_shuffles_leftI)
    with h show ?thesis by (intro exI[of _ "Sent r hh # S2"] exI[of _ F2]) simp
  qed
qed

lemma transferLoop_entries:
  assumes "transferLoop L net tok amt rs [] [] = (S, F, net')"
  shows "rs \<in> shuffles (map to S) (map to F) \<and> length S + length F = length rs
         \<and> list_all is_Sent S \<and> list_all is_Failed F"
proof -
  from transferLoop_acc[OF assms] have
    h: "rs \<in> shuffles (map to S) (map to F)" "list_all is_Sent S" "list_all is_Failed F" by auto
  from h(1) have "length rs = length (map to S) + length (map to F)" by (rule length_shuffles)
  with h show ?thesis by simp
qed


lemma transferLoop_results:
  "\<exists>net'. transferLoop L net tok amt rs S F
     = (S @ sentEntries (zip rs (transferResults L net tok amt rs)),
        F @ failedEntries (zip rs (transferResults L net tok amt rs)), net')"
proof (induction rs arbitrary: net S F)
  case Nil
  then show ?case by simp
next
  case (Cons r rs)
  obtain res net1 where t: "transfer L net tok r amt = (res, net1)" by (cases "transfer L net tok r amt")
  show ?case
  proof (cases res)
    case (Inl msg)
    from Cons.IH[of net1 S "F @ [Failed r msg]"] t Inl show ?thesis by auto
  next
    case (Inr h)
    from Cons.IH[of net1 "S @ [Sent r h]" F] t Inr show ?thesis by auto
  qed
qed

lemma sentEntries_empty_iff:
  "length rs = length xs \<Longrightarrow> sentEntries (zip rs xs) = [] \<longleftrightarrow> list_all isl xs"
proof (induction rs arbitrary: xs)
  case Nil
  then show ?case by simp
next
  case (Cons r rs)
  then obtain x xs' where "xs = x # xs'" by (cases xs) auto
  with Cons show ?case by (cases x) auto
qed

lemma length_transferResults: "length (transferResults L net tok amt rs) = length rs"
  by (induction rs arbitrary: net) (auto split: prod.splits)

lemma batchOutcome_results:
  "\<exists>net'. batchOutcome (transferLoop L net tok amt ns [] []) =
     (if list_all isl (transferResults L net tok amt ns) then Inl AllTransfersFailed
      else Inr \<lparr>sent = sentEntries (zip ns (transferResults L net tok amt ns)),
                failed = (if failedEntries (zip ns (transferResults L net tok amt ns)) = [] then None
                          else Some (failedEntries (zip ns (transferResults L net tok amt ns))))\<rparr>,
      net')"
proof -
  from transferLoop_results[of L net tok amt ns "[]" "[]"] obtain net' where
    "transferLoop L net tok amt ns [] []
     = (sentEntries (zip ns (transferResults L net tok amt ns)),
        failedEntries (zip ns (transferResults L net tok amt ns)), net')" by auto
  moreover have "sentEntries (zip ns (transferResults L net tok amt ns)) = []
      \<longleftrightarrow> list_all isl (transferResults L net tok amt ns)"
    by (rule sentEntries_empty_iff) (simp add: length_transferResults)
  ultimately show ?thesis by (auto simp: batchOutcome_def)
qed




lemma sendTokens_results:
  assumes "validateInput L key tok (Array rs) amt = Inr ns"
  shows "fst (sendTokens L key net tok (Array rs) amt)
       = (if list_all isl (transferResults L net tok amt ns) then Inl AllTransfersFailed
          else Inr \<lparr>sent = sentEntries (zip ns (transferResults L net tok amt ns)),
                    failed = (if failedEntries (zip ns (transferResults L net tok amt ns)) = []
                              then None
                              else Some (failedEntries (zip ns (transferResults L net tok amt ns))))\<rparr>)"
  using batchOutcome_results[of L net tok amt ns] assms by (auto simp: sendTokens_def)

lemma sendTokens_part011_results:
  assumes "validateInput_part011 L tok (Array rs) amt = Inr ns"
  shows "fst (sendTokens_part011 L net tok (Array rs) amt)
       = (if list_all isl (transferResults L net tok amt ns) then Inl AllTransfersFailed
          else Inr \<lparr>sent = sentEntries (zip ns (transferResults L net tok amt ns)),
                    failed = (if failedEntries (zip ns (transferResults L net tok amt ns)) = []
                              then None
                              else Some (failedEntries (zip ns (transferResults L net tok amt ns))))\<rparr>)"
  using batchOutcome_results[of L net tok amt ns] assms by (auto simp: sendTokens_part011_def)

lemma entries_of_results:
  "ns \<in> shuffles (map to (sentEntries (zip ns (transferResults L net tok amt ns))))
                  (map to (failedEntries (zip ns (transferResults L net tok amt ns))))
   \<and> length (sentEntries (zip ns (transferResults L net tok amt ns)))
       + length (failedEntries (zip ns (transferResults L net tok amt ns))) = length ns
   \<and> list_all is_Sent (sentEntries (zip ns (transferResults L net tok amt ns)))
   \<and> list_all is_Failed (failedEntries (zip ns (transferResults L net tok amt ns)))"
proof -
  from transferLoop_results[of L net tok amt ns "[]" "[]"] obtain net' where
    "transferLoop L net tok amt ns [] []
     = (sentEntries (zip ns (transferResults L net tok amt ns)),
        failedEntries (zip ns (transferResults L net tok amt ns)), net')" by auto
  from transferLoop_entries[OF this] show ?thesis by simp
qed

subsection \<open>Runs of the sample instance\<close>

lemma sample_validateInput:
  "validateInput sampleExternals (Some (js ''k'')) (JString addr1)
     (Array [JString addr1, JString addr2, JString addrLower]) 5
   = Inr [JString addr1, JString addr2, JString addrLower]"
  by code_simp

lemma sample_validateInput_part011:
  "validateInput_part011 sampleExternals (JString addr1)
     (Array [JString addr1, JString addr2, JString addrLower]) 5
   = Inr [JString addr1, JString addr2, JString addrLower]"
  by code_simp

lemma sample_transferLoop:
  "transferLoop sampleExternals [] (JString addr1) 5
     [JString addr1, JString addr2, JString addrLower] [] []
   = ([Sent (JString addr1) (js ''0xfeed''), Sent (JString addrLower) (js ''0xfeed'')],
      [Failed (JString addr2) (js ''execution reverted'')],
      [JString addr1, JString addr2, JString addrLower])"
  by code_simp

lemma sample_results:
  "transferResults sampleExternals [] (JString addr1) 5 [JString addr1, JString addr2, JString addrLower]
   = [Inr (js ''0xfeed''), Inl (js ''execution reverted''), Inr (js ''0xfeed'')]"
  by code_simp

lemma sample_short_not_strict:
  "\<not> strictFormat sampleExternals (lowercased sampleExternals (JString (js ''0x123'')))
   \<and> \<not> strictFormat sampleExternals (JString (js ''0x123''))"
  by code_simp





lemma sendTokens_rejects:
  assumes "r \<in> set rs" "\<not> strictFormat L (lowercased L r)"
  shows "\<exists>e. sendTokens L key net tok (Array rs) amt = (Inl e, net)"
proof (cases "validateInput L key tok (Array rs) amt")
  case (Inl e)
  then show ?thesis by (simp add: sendTokens_def)
next
  case (Inr ns)
  from validateInput_Inr[OF Inr] have "ns = map (lowercased L) rs" "list_all (strictFormat L) ns" by auto
  with assms have False by (auto simp: list_all_iff)
  then show ?thesis ..
qed

lemma sendTokens_part011_rejects:
  assumes "r \<in> set rs" "\<not> strictFormat L r"
  shows "\<exists>e. sendTokens_part011 L net tok (Array rs) amt = (Inl e, net)"
proof (cases "validateInput_part011 L tok (Array rs) amt")
  case (Inl e)
  then show ?thesis by (simp add: sendTokens_part011_def)
next
  case (Inr ns)
  from validateInput_part011_Inr[OF Inr] have "ns = rs" "list_all (strictFormat L) ns" by auto
  with assms have False by (auto simp: list_all_iff)
  then show ?thesis ..
qed

subsection \<open>One entry per recipient\<close>

text \<open>
  Claim C10, as stated, fails: when every recipient passes the validation and every
  transfer fails, \<open>sendTokens\<close> throws \<open>All transfers failed\<close> and returns neither \<open>sent\<close>
  nor \<open>failed\<close>, so that no recipient has an entry; and when every transfer succeeds,
  \<open>failed\<close> is \<open>undefined\<close>, not an empty array.
\<close>

theorem all_transfers_failed_counterexample:
  "validateInput sampleExternals (Some (js ''k'')) (JString addr1) (Array [JString addr2]) 5
     = Inr [JString addr2]
   \<and> sendTokens sampleExternals (Some (js ''k'')) [] (JString addr1) (Array [JString addr2]) 5
     = (Inl AllTransfersFailed, [JString addr2])
   \<and> validateInput_part011 sampleExternals (JString addr1) (Array [JString addr2]) 5
     = Inr [JString addr2]
   \<and> sendTokens_part011 sampleExternals [] (JString addr1) (Array [JString addr2]) 5
     = (Inl AllTransfersFailed, [JString addr2])
   \<and> sendTokens sampleExternals (Some (js ''k'')) [] (JString addr1) (Array [JString addr1]) 5
     = (Inr \<lparr>sent = [Sent (JString addr1) (js ''0xfeed'')], failed = None\<rparr>, [JString addr1])"
  by code_simp

text \<open>
  Claim C10, amended. When the input passes the validation of \<open>sendTokens\<close>, the recipients
  of the transfers are the lowercased ones in \<^verbatim>\<open>multi-tool-plugin-v2.cjs\<close> and the given ones
  in the other plugin. If every transfer fails, \<open>sendTokens\<close> throws \<open>All transfers failed\<close>
  and returns no entry. If at least one transfer succeeds, it returns \<open>sent\<close> = \<open>S\<close> and
  \<open>failed\<close> = \<open>F\<close>, or \<open>undefined\<close> in the place of an empty \<open>F\<close>, where every recipient has
  exactly one entry: \<open>S\<close> holds, in the order of the input, one entry with the \<open>txHash\<close> for
  each recipient whose transfer succeeded and \<open>F\<close> one entry with the \<open>error\<close> for each
  recipient whose transfer failed; the \<open>to\<close> fields of \<open>S\<close> and of \<open>F\<close> interleave to the
  list of recipients, and the two sizes add up to the number of recipients.
\<close>

theorem one_entry_per_recipient:
  "(validateInput L key tok (Array rs) amt = Inr ns \<longrightarrow>
        ns = map (lowercased L) rs
      \<and> (list_all isl (transferResults L net tok amt ns) \<longrightarrow>
           fst (sendTokens L key net tok (Array rs) amt) = Inl AllTransfersFailed)
      \<and> (\<not> list_all isl (transferResults L net tok amt ns) \<longrightarrow>
           (\<exists>S F. fst (sendTokens L key net tok (Array rs) amt)
                     = Inr \<lparr>sent = S, failed = (if F = [] then None else Some F)\<rparr>
                 \<and> S = sentEntries (zip ns (transferResults L net tok amt ns))
                 \<and> F = failedEntries (zip ns (transferResults L net tok amt ns))
                 \<and> length S + length F = length rs
                 \<and> ns \<in> shuffles (map to S) (map to F)
                 \<and> list_all is_Sent S \<and> list_all is_Failed F)))
   \<and> (validateInput_part011 L tok (Array rs) amt = Inr ns1 \<longrightarrow>
        ns1 = rs
      \<and> (list_all isl (transferResults L net tok amt rs) \<longrightarrow>
           fst (sendTokens_part011 L net tok (Array rs) amt) = Inl AllTransfersFailed)
      \<and> (\<not> list_all isl (transferResults L net tok amt rs) \<longrightarrow>
           (\<exists>S F. fst (sendTokens_part011 L net tok (Array rs) amt)
                     = Inr \<lparr>sent = S, failed = (if F = [] then None else Some F)\<rparr>
                 \<and> S = sentEntries (zip rs (transferResults L net tok amt rs))
                 \<and> F = failedEntries (zip rs (transferResults L net tok amt rs))
                 \<and> length S + length F = length rs
                 \<and> rs \<in> shuffles (map to S) (map to F)
                 \<and> list_all is_Sent S \<and> list_all is_Failed F)))"
proof (intro conjI impI)
  assume v: "validateInput L key tok (Array rs) amt = Inr ns"
  from validateInput_Inr[OF v] show n: "ns = map (lowercased L) rs" by auto
  then have l: "length ns = length rs" by simp
  note r = sendTokens_results[OF v, of net]
  {
    assume "list_all isl (transferResults L net tok amt ns)"
    with r show "fst (sendTokens L key net tok (Array rs) amt) = Inl AllTransfersFailed" by simp
  }
  {
    assume "\<not> list_all isl (transferResults L net tok amt ns)"
    with r entries_of_results[of ns L net tok amt] l
    show "\<exists>S F. fst (sendTokens L key net tok (Array rs) amt)
                     = Inr \<lparr>sent = S, failed = (if F = [] then None else Some F)\<rparr>
                 \<and> S = sentEntries (zip ns (transferResults L net tok amt ns))
                 \<and> F = failedEntries (zip ns (transferResults L net tok amt ns))
                 \<and> length S + length F = length rs
                 \<and> ns \<in> shuffles (map to S) (map to F)
                 \<and> list_all is_Sent S \<and> list_all is_Failed F" by simp
  }
next
  assume v: "validateInput_part011 L tok (Array rs) amt = Inr ns1"
  from validateInput_part011_Inr[OF v] show n: "ns1 = rs" by auto
  note r = sendTokens_part011_results[OF v[unfolded n], of net]
  {
    assume "list_all isl (transferResults L net tok amt rs)"
    with r show "fst (sendTokens_part011 L net tok (Array rs) amt) = Inl AllTransfersFailed" by simp
  }
  {
    assume "\<not> list_all isl (transferResults L net tok amt rs)"
    with r entries_of_results[of rs L net tok amt]
    show "\<exists>S F. fst (sendTokens_part011 L net tok (Array rs) amt)
                     = Inr \<lparr>sent = S, failed = (if F = [] then None else Some F)\<rparr>
                 \<and> S = sentEntries (zip rs (transferResults L net tok amt rs))
                 \<and> F = failedEntries (zip rs (transferResults L net tok amt rs))
                 \<and> length S + length F = length rs
                 \<and> rs \<in> shuffles (map to S) (map to F)
                 \<and> list_all is_Sent S \<and> list_all is_Failed F" by simp
  }
qed

text \<open>
  A run with three recipients, the second of which the network refuses, and a run with
  one recipient, which the network refuses.
\<close>

theorem one_entry_per_recipient_witness:
  "fst (sendTokens sampleExternals (Some (js ''k'')) [] (JString addr1)
          (Array [JString addr1, JString addr2, JString addrLower]) 5)
   = Inr \<lparr>sent = [Sent (JString addr1) (js ''0xfeed''), Sent (JString addrLower) (js ''0xfeed'')],
          failed = Some [Failed (JString addr2) (js ''execution reverted'')]\<rparr>
   \<and> fst (sendTokens_part011 sampleExternals [] (JString addr1)
          (Array [JString addr1, JString addr2, JString addrLower]) 5)
   = Inr \<lparr>sent = [Sent (JString addr1) (js ''0xfeed''), Sent (JString addrLower) (js ''0xfeed'')],
          failed = Some [Failed (JString addr2) (js ''execution reverted'')]\<rparr>
   \<and> [JString addr1, JString addr2, JString addrLower]
       \<in> shuffles [JString addr1, JString addrLower] [JString addr2]
   \<and> fst (sendTokens sampleExternals (Some (js ''k'')) [] (JString addr1) (Array [JString addr2]) 5)
   = Inl AllTransfersFailed"
proof -
  have a: "validateInput sampleExternals (Some (js ''k'')) (JString addr1) (Array [JString addr2]) 5
             = Inr [JString addr2]"
    and b: "transferResults sampleExternals [] (JString addr1) 5 [JString addr2]
             = [Inl (js ''execution reverted'')]"
    by code_simp+
  from one_entry_per_recipient[of sampleExternals "Some (js ''k'')" "JString addr1"
      "[JString addr1, JString addr2, JString addrLower]" 5
      "[JString addr1, JString addr2, JString addrLower]" "[]"
      "[JString addr1, JString addr2, JString addrLower]"]
    sample_validateInput sample_validateInput_part011 sample_results
  have 1: "fst (sendTokens sampleExternals (Some (js ''k'')) [] (JString addr1)
          (Array [JString addr1, JString addr2, JString addrLower]) 5)
   = Inr \<lparr>sent = [Sent (JString addr1) (js ''0xfeed''), Sent (JString addrLower) (js ''0xfeed'')],
          failed = Some [Failed (JString addr2) (js ''execution reverted'')]\<rparr>"
    and 2: "fst (sendTokens_part011 sampleExternals [] (JString addr1)
          (Array [JString addr1, JString addr2, JString addrLower]) 5)
   = Inr \<lparr>sent = [Sent (JString addr1) (js ''0xfeed''), Sent (JString addrLower) (js ''0xfeed'')],
          failed = Some [Failed (JString addr2) (js ''execution reverted'')]\<rparr>"
    and 3: "[JString addr1, JString addr2, JString addrLower]
       \<in> shuffles [JString addr1, JString addrLower] [JString addr2]"
    by simp_all
  from one_entry_per_recipient[of sampleExternals "Some (js ''k'')" "JString addr1"
      "[JString addr2]" 5 "[JString addr2]" "[]" "[JString addr2]"] a b
  have 4: "fst (sendTokens sampleExternals (Some (js ''k'')) [] (JString addr1) (Array [JString addr2]) 5)
   = Inl AllTransfersFailed" by simp
  from 1 2 3 4 show ?thesis by simp
qed

subsection \<open>Success of a batch\<close>

text \<open>
  Claim C3. When the input passes validation, \<open>sendTokens\<close> returns a result (rather than
  throwing) exactly when at least one of the transfers succeeded, and throws
  \<open>All transfers failed\<close> otherwise. The result carries in \<open>sent\<close> the entries of the
  recipients whose transfer succeeded and in \<open>failed\<close> those of the recipients whose
  transfer failed, \<open>failed\<close> being left undefined by the source when no transfer failed.
\<close>

theorem batch_success_iff_some_transfer_succeeded:
  "(validateInput L key tok rcp amt = Inr ns \<longrightarrow>
      fst (sendTokens L key net tok rcp amt) =
        (if list_ex (\<lambda>res. \<not> isl res) (transferResults L net tok amt ns)
         then Inr \<lparr>sent = sentEntries (zip ns (transferResults L net tok amt ns)),
                   failed = (if failedEntries (zip ns (transferResults L net tok amt ns)) = []
                             then None
                             else Some (failedEntries (zip ns (transferResults L net tok amt ns))))\<rparr>
         else Inl AllTransfersFailed))
   \<and> (validateInput_part011 L tok rcp amt = Inr ns1 \<longrightarrow>
      fst (sendTokens_part011 L net tok rcp amt) =
        (if list_ex (\<lambda>res. \<not> isl res) (transferResults L net tok amt ns1)
         then Inr \<lparr>sent = sentEntries (zip ns1 (transferResults L net tok amt ns1)),
                   failed = (if failedEntries (zip ns1 (transferResults L net tok amt ns1)) = []
                             then None
                             else Some (failedEntries (zip ns1 (transferResults L net tok amt ns1))))\<rparr>
         else Inl AllTransfersFailed))"
proof -
  have e: "list_ex (\<lambda>res. \<not> isl res) xs \<longleftrightarrow> \<not> list_all isl xs" for xs :: "(jsstring + jsstring) list"
    by (simp add: list_ex_iff list_all_iff)
  show ?thesis
    using batchOutcome_results[of L net tok amt ns] batchOutcome_results[of L net tok amt ns1]
    by (auto simp: sendTokens_def sendTokens_part011_def e)
qed

theorem batch_success_iff_some_transfer_succeeded_witness:
  "fst (sendTokens sampleExternals (Some (js ''k'')) [] (JString addr1)
     (Array [JString addr1, JString addr2, JString addrLower]) 5)
   = Inr \<lparr>sent = [Sent (JString addr1) (js ''0xfeed''), Sent (JString addrLower) (js ''0xfeed'')],
           failed = Some [Failed (JString addr2) (js ''execution reverted'')]\<rparr>
   \<and> fst (sendTokens_part011 sampleExternals [] (JString addr1)
     (Array [JString addr1, JString addr2, JString addrLower]) 5)
   = Inr \<lparr>sent = [Sent (JString addr1) (js ''0xfeed''), Sent (JString addrLower) (js ''0xfeed'')],
           failed = Some [Failed (JString addr2) (js ''execution reverted'')]\<rparr>"
  using batch_success_iff_some_transfer_succeeded[of sampleExternals "Some (js ''k'')" "JString addr1"
      "Array [JString addr1, JString addr2, JString addrLower]" 5
      "[JString addr1, JString addr2, JString addrLower]" "[]"
      "[JString addr1, JString addr2, JString addrLower]"]
    sample_validateInput sample_validateInput_part011 sample_results
  by simp

subsection \<open>Validation before any transfer\<close>

text \<open>
  Claim C4, as stated, fails on the other plugin (\<^verbatim>\<open>part_011\<close>), whose \<open>sendTokens\<close>
  does not lowercase: an address in capitals is validated and sent as it is.
\<close>

theorem sendTokens_part011_not_normalized_counterexample:
  "sendTokens_part011 sampleExternals [] (JString addr1) (Array [JString addrUpper]) 5
     = (Inr \<lparr>sent = [Sent (JString addrUpper) (js ''0xfeed'')], failed = None\<rparr>, [JString addrUpper])
   \<and> toLowerCase sampleExternals addrUpper = addrLower
   \<and> addrUpper \<noteq> addrLower"
  by code_simp

text \<open>
  Claim C4, amended. In \<^verbatim>\<open>multi-tool-plugin-v2.cjs\<close> every recipient is lowercased and
  then checked against the strict format (a non-empty string, \<open>0x\<close>-prefixed, 42 characters,
  accepted by \<open>ethers.isAddress\<close>); in the other plugin the recipient is checked as given,
  without lowercasing. In both, a recipient that fails a check makes \<open>sendTokens\<close> throw
  with the network untouched, so before any transfer; and the recipients that reach the
  transfer loop are the lowercased (respectively the given) ones, all of the strict format.
\<close>

theorem recipients_validated_before_any_transfer:
  assumes "r \<in> set rs"
  shows "(\<not> strictFormat L (lowercased L r) \<longrightarrow>
            (\<exists>e. sendTokens L key net tok (Array rs) amt = (Inl e, net)))
       \<and> (validateInput L key tok (Array rs) amt = Inr ns \<longrightarrow>
            ns = map (lowercased L) rs \<and> list_all (strictFormat L) ns)
       \<and> (\<not> strictFormat L r \<longrightarrow>
            (\<exists>e. sendTokens_part011 L net tok (Array rs) amt = (Inl e, net)))
       \<and> (validateInput_part011 L tok (Array rs) amt = Inr ns1 \<longrightarrow>
            ns1 = rs \<and> list_all (strictFormat L) ns1)"
  using sendTokens_rejects[OF assms] sendTokens_part011_rejects[OF assms]
    validateInput_Inr[of L key tok "Array rs" amt ns] validateInput_part011_Inr[of L tok "Array rs" amt ns1]
  by auto

theorem recipients_validated_before_any_transfer_witness:
  "JString (js ''0x123'') \<in> set [JString addr1, JString (js ''0x123'')]
   \<and> (\<exists>e. sendTokens sampleExternals (Some (js ''k'')) [] (JString addr1)
            (Array [JString addr1, JString (js ''0x123'')]) 5 = (Inl e, []))
   \<and> (\<exists>e. sendTokens_part011 sampleExternals [] (JString addr1)
            (Array [JString addr1, JString (js ''0x123'')]) 5 = (Inl e, []))"
  using recipients_validated_before_any_transfer[of "JString (js ''0x123'')"
      "[JString addr1, JString (js ''0x123'')]" sampleExternals "Some (js ''k'')" "[]" "JString addr1" 5]
    sample_short_not_strict
  by simp

subsection \<open>Malformed recipients\<close>




section \<open>Properties of the Compiler Adapter\<close>

lemma errors_of_hasErrorDiagnostic:
  assumes "hasErrorDiagnostic out"
  shows "errors out = Some (diagnostics out)
       \<and> list_ex (\<lambda>e. severity e = js ''error'') (diagnostics out)
       \<and> filter (\<lambda>e. severity e = js ''error'') (diagnostics out) \<noteq> []"
proof (cases "errors out")
  case None
  with assms show ?thesis by (simp add: hasErrorDiagnostic_def diagnostics_def)
next
  case (Some es)
  with assms show ?thesis
    by (auto simp: hasErrorDiagnostic_def diagnostics_def list_ex_iff filter_empty_conv)
qed

lemma compileSolidity_error:
  assumes "hasErrorDiagnostic out"
  shows "compileSolidity out name
       = Inl (Error (js ''Compilation failed: ''
                      @ joinWith (js ''\<newline>'') (map message (diagnostics out))))"
  using errors_of_hasErrorDiagnostic[OF assms] by (simp add: compileSolidity_def)

lemma compileSolidity_deployer_error:
  assumes "hasErrorDiagnostic out"
  shows "compileSolidity_deployer out name
       = Inl (Error (js ''Compilation errors:\<newline>''
                      @ joinWith (js ''\<newline>'')
                          (map formattedMessage
                             (filter (\<lambda>d. severity d = js ''error'') (diagnostics out)))))"
  using errors_of_hasErrorDiagnostic[OF assms] by (simp add: compileSolidity_deployer_def Let_def)

lemma compile_no_error:
  assumes "\<not> hasErrorDiagnostic out"
  shows "compileSolidity out name = findContract out name
       \<and> compileSolidity_deployer out name = findContract_deployer out name"
  using assms
  by (auto simp: hasErrorDiagnostic_def diagnostics_def compileSolidity_def compileSolidity_deployer_def
      Let_def list_ex_iff filter_empty_conv split: option.splits)

lemma findContract_Inr_iff:
  "findContract out name = Inr c \<longleftrightarrow>
     (\<exists>files cs. contracts out = Some files \<and> map_of files (js ''contract.sol'') = Some cs
        \<and> ((\<exists>v. map_of cs name = Some v \<and> c = Own v)
           \<or> (map_of cs name = None \<and> name \<in> set objectPrototypeProperties \<and> c = Inherited name)
           \<or> (map_of cs name = None \<and> name \<notin> set objectPrototypeProperties
              \<and> (\<exists>k v rest. cs = (k, v) # rest \<and> k \<noteq> [] \<and> c = Own v))))"
  by (auto simp: findContract_def getProperty_def split: option.splits list.splits)

lemma findContract_Inl:
  "findContract out name = Inl e \<Longrightarrow>
     e = TypeError \<or> e = Error (js ''No compiled contracts found'')"
  by (auto simp: findContract_def getProperty_def split: option.splits list.splits if_splits)

lemma findContract_deployer_Inr_iff:
  "findContract_deployer out name = Inr r \<longleftrightarrow>
     (\<exists>files cs v. contracts out = Some files \<and> map_of files (name @ js ''.sol'') = Some cs
        \<and> map_of cs name = Some v \<and> r = (compiledAbi v, js ''0x'' @ bytecodeObject v))"
  by (auto simp: findContract_deployer_def getProperty_def split: option.splits property.splits)

lemma findContract_deployer_Inl:
  "findContract_deployer out name = Inl e \<Longrightarrow>
     e = TypeError \<or> e = Error (js ''Contract '' @ name @ js '' not found in the compiled output'')"
  by (auto simp: findContract_deployer_def getProperty_def
      split: option.splits property.splits if_splits)

lemma sample_hasError:
  "hasErrorDiagnostic failedOutput \<and> \<not> hasErrorDiagnostic (cleanOutput (js ''contract.sol''))
   \<and> \<not> hasErrorDiagnostic (cleanOutput (js ''Foo.sol''))
   \<and> \<not> hasErrorDiagnostic (cleanOutput (js ''toString.sol''))"
  by code_simp

lemma sample_diags: "diagnostics failedOutput = [sampleWarning, sampleError]"
  by code_simp

lemma sample_messages:
  "js ''Compilation failed: '' @ joinWith (js ''\<newline>'') (map message [sampleWarning, sampleError])
     = js ''Compilation failed: Unused variable.\<newline>Expected ;''
   \<and> js ''Compilation errors:\<newline>''
       @ joinWith (js ''\<newline>'')
           (map formattedMessage
              (filter (\<lambda>d. severity d = js ''error'') [sampleWarning, sampleError]))
     = js ''Compilation errors:\<newline>ParserError: Expected ;''"
  by code_simp

lemma sample_contracts:
  "contracts (cleanOutput file) = Some [(file, [(js ''Foo'', sampleContract)])]"
  by (simp add: cleanOutput_def)

lemma sample_names:
  "js ''toString'' \<in> set objectPrototypeProperties \<and> js ''Foo'' \<noteq> js ''toString''
   \<and> js ''Foo'' \<noteq> js ''Bar'' \<and> js ''Bar'' \<notin> set objectPrototypeProperties
   \<and> js ''Foo'' \<noteq> []"
  by code_simp

lemma no_file_inherited:
  "js ''contract.sol'' \<notin> set objectPrototypeProperties
   \<and> name @ js ''.sol'' \<notin> set objectPrototypeProperties"
proof -
  have "list_all (\<lambda>p. \<not> suffix (js ''.sol'') p) objectPrototypeProperties" by code_simp
  then have "\<And>p. p \<in> set objectPrototypeProperties \<Longrightarrow> \<not> suffix (js ''.sol'') p"
    by (simp add: list_all_iff)
  then have "name @ js ''.sol'' \<notin> set objectPrototypeProperties" for name
    by (metis suffixI)
  from this this[of "js ''contract''"] show ?thesis by (simp add: js_def)
qed

text \<open>
  Claim C8, as stated, fails in the direction "fails only if a diagnostic is an error": a
  compilation without any error diagnostic still fails when the contract is not found in
  the output, or when the output has no contracts at all.
\<close>

theorem compile_fails_without_error_counterexample:
  "\<not> hasErrorDiagnostic (cleanOutput (js ''Bar.sol''))
   \<and> compileSolidity_deployer (cleanOutput (js ''Bar.sol'')) (js ''Bar'')
       = Inl (Error (js ''Contract Bar not found in the compiled output''))
   \<and> \<not> hasErrorDiagnostic commentOnlyOutput
   \<and> compileSolidity commentOnlyOutput (js ''Bar'') = Inl TypeError"
  by code_simp

text \<open>
  Claim C8, amended. If at least one diagnostic has severity \<open>error\<close>, both adapters throw
  one error: \<^verbatim>\<open>fixed-solc-plugin.cjs\<close> with \<open>Compilation failed: \<close> and the messages of
  all the diagnostics (warnings included) joined by line feeds, the embedded deployer with
  \<open>Compilation errors:\<close>, a line feed and the formatted messages of the diagnostics of
  severity \<open>error\<close> joined by line feeds. If no diagnostic is an error (none at all, or
  warnings only), the diagnostics are not fatal. Then \<^verbatim>\<open>fixed-solc-plugin.cjs\<close> returns a
  value exactly when the output has contracts for \<^verbatim>\<open>contract.sol\<close> and either the contract of
  that name is among them (returned), or the name is one of \<open>Object.prototype\<close> such as
  \<open>constructor\<close> (the inherited property is returned), or the first contract of the file
  has a name that is not empty (returned in its place); it throws nothing but a TypeError
  or \<open>No compiled contracts found\<close>. The embedded deployer returns exactly when the file
  \<open>name.sol\<close> of the output holds a contract \<open>name\<close>, and then its ABI and its object code
  after \<open>0x\<close>; it throws nothing but a TypeError or \<open>Contract name not found in the compiled
  output\<close>.
\<close>

theorem compile_fails_on_error_diagnostic:
  "(hasErrorDiagnostic out \<longrightarrow>
      compileSolidity out name
        = Inl (Error (js ''Compilation failed: ''
                       @ joinWith (js ''\<newline>'') (map message (diagnostics out))))
    \<and> compileSolidity_deployer out name
        = Inl (Error (js ''Compilation errors:\<newline>''
                       @ joinWith (js ''\<newline>'')
                           (map formattedMessage
                              (filter (\<lambda>d. severity d = js ''error'') (diagnostics out))))))
   \<and> (\<not> hasErrorDiagnostic out \<longrightarrow>
        (\<forall>c. compileSolidity out name = Inr c \<longleftrightarrow>
           (\<exists>files cs. contracts out = Some files
              \<and> map_of files (js ''contract.sol'') = Some cs
              \<and> ((\<exists>v. map_of cs name = Some v \<and> c = Own v)
                 \<or> (map_of cs name = None \<and> name \<in> set objectPrototypeProperties
                    \<and> c = Inherited name)
                 \<or> (map_of cs name = None \<and> name \<notin> set objectPrototypeProperties
                    \<and> (\<exists>k v rest. cs = (k, v) # rest \<and> k \<noteq> [] \<and> c = Own v)))))
      \<and> (\<forall>e. compileSolidity out name = Inl e \<longrightarrow>
              e = TypeError \<or> e = Error (js ''No compiled contracts found''))
      \<and> (\<forall>r. compileSolidity_deployer out name = Inr r \<longleftrightarrow>
           (\<exists>files cs v. contracts out = Some files
              \<and> map_of files (name @ js ''.sol'') = Some cs
              \<and> map_of cs name = Some v
              \<and> r = (compiledAbi v, js ''0x'' @ bytecodeObject v)))
      \<and> (\<forall>e. compileSolidity_deployer out name = Inl e \<longrightarrow>
              e = TypeError
            \<or> e = Error (js ''Contract '' @ name @ js '' not found in the compiled output'')))"
proof (intro conjI impI allI)
  assume h: "hasErrorDiagnostic out"
  show "compileSolidity out name
        = Inl (Error (js ''Compilation failed: ''
                       @ joinWith (js ''\<newline>'') (map message (diagnostics out))))"
    by (rule compileSolidity_error[OF h])
  show "compileSolidity_deployer out name
        = Inl (Error (js ''Compilation errors:\<newline>''
                       @ joinWith (js ''\<newline>'')
                           (map formattedMessage
                              (filter (\<lambda>d. severity d = js ''error'') (diagnostics out)))))"
    by (rule compileSolidity_deployer_error[OF h])
next
  fix c
  assume "\<not> hasErrorDiagnostic out"
  then have "compileSolidity out name = findContract out name"
    by (simp add: compile_no_error)
  then show "compileSolidity out name = Inr c \<longleftrightarrow>
           (\<exists>files cs. contracts out = Some files
              \<and> map_of files (js ''contract.sol'') = Some cs
              \<and> ((\<exists>v. map_of cs name = Some v \<and> c = Own v)
                 \<or> (map_of cs name = None \<and> name \<in> set objectPrototypeProperties
                    \<and> c = Inherited name)
                 \<or> (map_of cs name = None \<and> name \<notin> set objectPrototypeProperties
                    \<and> (\<exists>k v rest. cs = (k, v) # rest \<and> k \<noteq> [] \<and> c = Own v))))"
    by (simp only: findContract_Inr_iff)
next
  fix e
  assume "\<not> hasErrorDiagnostic out" and "compileSolidity out name = Inl e"
  then have "findContract out name = Inl e" by (simp add: compile_no_error)
  then show "e = TypeError \<or> e = Error (js ''No compiled contracts found'')"
    by (rule findContract_Inl)
next
  fix r
  assume "\<not> hasErrorDiagnostic out"
  then have "compileSolidity_deployer out name = findContract_deployer out name"
    by (simp add: compile_no_error)
  then show "compileSolidity_deployer out name = Inr r \<longleftrightarrow>
           (\<exists>files cs v. contracts out = Some files
              \<and> map_of files (name @ js ''.sol'') = Some cs
              \<and> map_of cs name = Some v
              \<and> r = (compiledAbi v, js ''0x'' @ bytecodeObject v))"
    by (simp only: findContract_deployer_Inr_iff)
next
  fix e
  assume "\<not> hasErrorDiagnostic out" and "compileSolidity_deployer out name = Inl e"
  then have "findContract_deployer out name = Inl e" by (simp add: compile_no_error)
  then show "e = TypeError
            \<or> e = Error (js ''Contract '' @ name @ js '' not found in the compiled output'')"
    by (rule findContract_deployer_Inl)
qed

theorem compile_fails_on_error_diagnostic_witness:
  "compileSolidity failedOutput (js ''Foo'')
     = Inl (Error (js ''Compilation failed: Unused variable.\<newline>Expected ;''))
   \<and> compileSolidity_deployer failedOutput (js ''Foo'')
     = Inl (Error (js ''Compilation errors:\<newline>ParserError: Expected ;''))
   \<and> compileSolidity (cleanOutput (js ''contract.sol'')) (js ''Foo'') = Inr (Own sampleContract)
   \<and> compileSolidity (cleanOutput (js ''contract.sol'')) (js ''Bar'') = Inr (Own sampleContract)
   \<and> compileSolidity (cleanOutput (js ''contract.sol'')) (js ''toString'')
     = Inr (Inherited (js ''toString''))
   \<and> compileSolidity_deployer (cleanOutput (js ''Foo.sol'')) (js ''Foo'')
     = Inr (compiledAbi sampleContract, js ''0x'' @ bytecodeObject sampleContract)
   \<and> compileSolidity_deployer (cleanOutput (js ''toString.sol'')) (js ''toString'') = Inl TypeError"
proof -
  note h = sample_hasError
  note n = sample_names
  have e: "compileSolidity_deployer (cleanOutput (js ''toString.sol'')) (js ''toString'')
             \<noteq> Inl (Error (js ''Contract '' @ js ''toString'' @ js '' not found in the compiled output''))"
    by code_simp
  have 1: "compileSolidity failedOutput (js ''Foo'')
     = Inl (Error (js ''Compilation failed: Unused variable.\<newline>Expected ;''))"
    and 2: "compileSolidity_deployer failedOutput (js ''Foo'')
     = Inl (Error (js ''Compilation errors:\<newline>ParserError: Expected ;''))"
    using compile_fails_on_error_diagnostic[of failedOutput "js ''Foo''"] h sample_diags
      sample_messages by simp_all
  have 3: "compileSolidity (cleanOutput (js ''contract.sol'')) (js ''Foo'') = Inr (Own sampleContract)"
    using compile_fails_on_error_diagnostic[of "cleanOutput (js ''contract.sol'')" "js ''Foo''"] h
    by (simp add: sample_contracts js_def)
  have 4: "compileSolidity (cleanOutput (js ''contract.sol'')) (js ''Bar'') = Inr (Own sampleContract)"
    using compile_fails_on_error_diagnostic[of "cleanOutput (js ''contract.sol'')" "js ''Bar''"] h n
    by (simp add: sample_contracts js_def)
  have 5: "compileSolidity (cleanOutput (js ''contract.sol'')) (js ''toString'')
     = Inr (Inherited (js ''toString''))"
    using compile_fails_on_error_diagnostic[of "cleanOutput (js ''contract.sol'')" "js ''toString''"] h n
    by (simp add: sample_contracts js_def)
  have 6: "compileSolidity_deployer (cleanOutput (js ''Foo.sol'')) (js ''Foo'')
     = Inr (compiledAbi sampleContract, js ''0x'' @ bytecodeObject sampleContract)"
    using compile_fails_on_error_diagnostic[of "cleanOutput (js ''Foo.sol'')" "js ''Foo''"] h
    by (simp add: sample_contracts js_def)
  have "\<not> (\<exists>r. compileSolidity_deployer (cleanOutput (js ''toString.sol'')) (js ''toString'') = Inr r)"
    using compile_fails_on_error_diagnostic[of "cleanOutput (js ''toString.sol'')" "js ''toString''"] h n
    by (simp add: sample_contracts js_def)
  then obtain x where x: "compileSolidity_deployer (cleanOutput (js ''toString.sol'')) (js ''toString'') = Inl x"
    by (cases "compileSolidity_deployer (cleanOutput (js ''toString.sol'')) (js ''toString'')") auto
  with compile_fails_on_error_diagnostic[of "cleanOutput (js ''toString.sol'')" "js ''toString''"] h e
  have 7: "compileSolidity_deployer (cleanOutput (js ''toString.sol'')) (js ''toString'') = Inl TypeError"
    by auto
  from 1 2 3 4 5 6 7 show ?thesis by simp
qed

section \<open>Properties of the Deployment Executor and of the Artifact Store\<close>

lemma sample_key_ok:
  "sampleKey \<noteq> [] \<and> length (normalizeKey sampleKey) = 64 \<and> list_all isHexDigit (normalizeKey sampleKey)"
  by code_simp

lemma sample_chain:
  "accountError confirmedWithoutAddress = None
   \<and> gasOutcome confirmedWithoutAddress = Inr ()
   \<and> sendOutcome confirmedWithoutAddress = Inr (js ''0xabc123'')
   \<and> receiptOutcome confirmedWithoutAddress = Inr None"
  by (simp add: confirmedWithoutAddress_def)

lemma readFile_writeFile: "readFileSync (writeFileSync fs p d) p = Some d"
  by (simp add: readFileSync_def writeFileSync_def)

lemma sample_save:
  "saveContractArtifacts (js ''/tmp'') [] (js ''Foo'') (7::nat) addr1
   = ((js ''/tmp/monad-deployments'', js ''Foo.json''),
      [((js ''/tmp/monad-deployments'', js ''Foo.json''),
        \<lparr>contractName = js ''Foo'', address = addr1, abi = 7, transactionHash = None,
         network = Some (js ''monad-testnet''), chainId = None, explorerUrl = None,
         deployedAt = None\<rparr>)])"
  by code_simp

lemma sample_script:
  "deployContract_script confirmedDeployment (js ''/tmp'') (Some sampleKey) (Inr (7::nat, js ''0x6080''))
     (js ''Foo'') True []
   = (Deployed addr1 (js ''0xabc123'') 10143 (js ''Foo'') (explorerUrlOf (js ''0xabc123''))
        (Some (js ''/tmp/monad-deployments'', js ''Foo.json'')),
      [((js ''/tmp/monad-deployments'', js ''Foo.json''),
        \<lparr>contractName = js ''Foo'', address = addr1, abi = 7, transactionHash = Some (js ''0xabc123''),
         network = Some (js ''monad-testnet''), chainId = Some 10143,
         explorerUrl = Some (explorerUrlOf (js ''0xabc123'')), deployedAt = None\<rparr>)])"
  by code_simp

lemma sample_name: "\<not> startsWith (js ''Foo'') (js ''0x'')"
  by code_simp

subsection \<open>A receipt without a contract address\<close>

text \<open>
  Claim C1, as stated, fails on the embedded deployer: its \<open>deployContract\<close> throws an
  error that is a message only, and the hash of the confirmed transaction is not in it.
\<close>

theorem deployer_drops_hash_counterexample:
  "sendOutcome confirmedWithoutAddress = Inr (js ''0xabc123'')
   \<and> receiptOutcome confirmedWithoutAddress = Inr None
   \<and> deployContract_deployer confirmedWithoutAddress sampleKey
       = Inl (Error (js ''Deployment error: Contract deployment failed - no contract address in receipt''))
   \<and> \<not> sublist (js ''0xabc123'')
         (js ''Deployment error: Contract deployment failed - no contract address in receipt'')"
  by code_simp

text \<open>
  Claim C1, amended. When the transaction is sent and confirmed and the receipt has no
  contract address (none, or an empty one), neither deployer reports a success. The
  generated deploy script returns \<open>{success: false}\<close> with the error
  \<open>Contract deployment failed - no contract address in receipt\<close> and the transaction
  hash, and writes no artifact. The embedded deployer throws \<open>Deployment error: \<close> followed
  by the same text, an error without the hash.
\<close>

theorem no_contract_address_is_failure:
  assumes "accountError W = None"
      and "sendOutcome W = Inr hash"
      and "receiptOutcome W = Inr receiptAddress"
      and "receiptAddress = None \<or> receiptAddress = Some []"
  shows "(key \<noteq> [] \<longrightarrow>
            deployContract_script W tmpdir (Some key) (Inr c) name save fs
              = (Failure (js ''Contract deployment failed - no contract address in receipt'')
                   (Some hash), fs))
       \<and> (gasOutcome W = Inr () \<longrightarrow> pk \<noteq> [] \<longrightarrow>
          length (normalizeKey pk) = 64 \<longrightarrow> list_all isHexDigit (normalizeKey pk) \<longrightarrow>
            deployContract_deployer W pk
              = Inl (Error (js ''Deployment error: ''
                     @ js ''Contract deployment failed - no contract address in receipt'')))"
proof (intro conjI impI)
  assume "key \<noteq> []"
  with assms show "deployContract_script W tmpdir (Some key) (Inr c) name save fs
      = (Failure (js ''Contract deployment failed - no contract address in receipt'') (Some hash), fs)"
    by (cases c) (auto simp: deployContract_script_def)
next
  assume g: "gasOutcome W = Inr ()" and "pk \<noteq> []"
    and l: "length (normalizeKey pk) = 64" and h: "list_all isHexDigit (normalizeKey pk)"
  then show "deployContract_deployer W pk
      = Inl (Error (js ''Deployment error: ''
             @ js ''Contract deployment failed - no contract address in receipt''))"
    using assms by (auto simp: deployContract_deployer_def)
qed

theorem no_contract_address_is_failure_witness:
  "deployContract_script confirmedWithoutAddress (js ''/tmp'') (Some sampleKey) (Inr (7::nat, js ''0x6080''))
       (js ''Foo'') True []
     = (Failure (js ''Contract deployment failed - no contract address in receipt'')
          (Some (js ''0xabc123'')), [])
   \<and> deployContract_deployer confirmedWithoutAddress sampleKey
     = Inl (Error (js ''Deployment error: ''
            @ js ''Contract deployment failed - no contract address in receipt''))"
proof -
  from sample_chain have a: "accountError confirmedWithoutAddress = None"
    and s: "sendOutcome confirmedWithoutAddress = Inr (js ''0xabc123'')"
    and r: "receiptOutcome confirmedWithoutAddress = Inr None"
    and g: "gasOutcome confirmedWithoutAddress = Inr ()" by simp_all
  show ?thesis
    using no_contract_address_is_failure[OF a s r, of sampleKey "js ''/tmp''" "(7::nat, js ''0x6080'')"
        "js ''Foo''" True "[]" sampleKey] g sample_key_ok
    by simp
qed

subsection \<open>Saving and loading an artifact\<close>

text \<open>
  Claim C7, as stated, fails: \<open>saveContractArtifacts\<close> and the generated deploy script
  write under the directory for temporary files, \<open>loadContract\<close> reads the \<^verbatim>\<open>artifacts\<close>
  directory next to its script, so loading by name what they saved finds no file.
\<close>

theorem save_then_load_counterexample:
  "loadContract (map asciiLower) (Some [js ''Foo.json'']) (js ''/app'')
      (snd (saveContractArtifacts (js ''/tmp'') [] (js ''Foo'') (7::nat) addr1)) (js ''Foo'')
     = Inl (Error (js ''Contract artifacts not found for Foo''))
   \<and> loadContract (map asciiLower) (Some [js ''Foo.json'']) (js ''/app'')
      (snd (deployContract_script confirmedDeployment (js ''/tmp'') (Some sampleKey)
              (Inr (7::nat, js ''0x6080'')) (js ''Foo'') True [])) (js ''Foo'')
     = Inl (Error (js ''Contract artifacts not found for Foo''))"
  by code_simp

text \<open>
  Claim C7, amended. The file written by \<open>saveContractArtifacts\<close>, read back, holds the
  saved \<open>contractName\<close>, \<open>address\<close> and \<open>abi\<close> and no \<open>transactionHash\<close>; the one
  written by the generated deploy script holds the transaction hash as well. \<open>loadContract\<close>
  by a name that does not start with \<open>0x\<close> reads the \<^verbatim>\<open>artifacts\<close> directory of its
  script: after the save of the deploy utility (\<^verbatim>\<open>part_008\<close>), which writes there, it
  returns the saved \<open>address\<close> and \<open>abi\<close> (the two fields it returns); with no file
  of that name there it fails with \<open>Contract artifacts not found\<close>.
\<close>

theorem artifact_saved_and_loaded:
  "(saveContractArtifacts tmpdir fs name abiC addr = (p, fs1) \<longrightarrow>
      (\<exists>d. readFileSync fs1 p = Some d \<and> contractName d = name \<and> address d = addr
            \<and> abi d = abiC \<and> transactionHash d = None))
   \<and> (deployContract_script W tmpdir key (Inr (abiC, code)) name True fs
        = (Deployed addr hash n cn url (Some p2), fs2) \<longrightarrow>
      (\<exists>d. readFileSync fs2 p2 = Some d \<and> contractName d = name \<and> address d = addr
            \<and> abi d = abiC \<and> transactionHash d = Some hash))
   \<and> (\<not> startsWith name (js ''0x'') \<longrightarrow>
        loadContract lower listing dirname
          (snd (saveArtifacts_deployUtility dirname fs name abiC addr now)) name
        = Inr (addr, abiC))
   \<and> (\<not> startsWith name (js ''0x'') \<longrightarrow>
        readFileSync fs (joinPath dirname (js ''artifacts''), name @ js ''.json'') = None \<longrightarrow>
        loadContract lower listing dirname fs name
        = Inl (Error (js ''Contract artifacts not found for '' @ name)))"
proof (intro conjI impI)
  assume "saveContractArtifacts tmpdir fs name abiC addr = (p, fs1)"
  then show "\<exists>d. readFileSync fs1 p = Some d \<and> contractName d = name \<and> address d = addr
            \<and> abi d = abiC \<and> transactionHash d = None"
    by (auto simp: saveContractArtifacts_def Let_def readFile_writeFile)
next
  assume "deployContract_script W tmpdir key (Inr (abiC, code)) name True fs
        = (Deployed addr hash n cn url (Some p2), fs2)"
  then show "\<exists>d. readFileSync fs2 p2 = Some d \<and> contractName d = name \<and> address d = addr
            \<and> abi d = abiC \<and> transactionHash d = Some hash"
    by (auto simp: deployContract_script_def Let_def readFile_writeFile
        split: if_splits option.splits sum.splits)
next
  assume "\<not> startsWith name (js ''0x'')"
  then show "loadContract lower listing dirname
          (snd (saveArtifacts_deployUtility dirname fs name abiC addr now)) name
        = Inr (addr, abiC)"
    by (simp add: loadContract_def saveArtifacts_deployUtility_def Let_def readFile_writeFile)
next
  assume "\<not> startsWith name (js ''0x'')"
    and "readFileSync fs (joinPath dirname (js ''artifacts''), name @ js ''.json'') = None"
  then show "loadContract lower listing dirname fs name
        = Inl (Error (js ''Contract artifacts not found for '' @ name))"
    by (simp add: loadContract_def)
qed

theorem artifact_saved_and_loaded_witness:
  "loadContract (map asciiLower) (Some [js ''Foo.json'']) (js ''/app'')
      (snd (saveArtifacts_deployUtility (js ''/app'') [] (js ''Foo'') (7::nat) addr1 (js ''2025'')))
      (js ''Foo'')
     = Inr (addr1, 7)
   \<and> loadContract (map asciiLower) (Some [js ''Foo.json'']) (js ''/app'') ([] :: nat filesystem) (js ''Foo'')
     = Inl (Error (js ''Contract artifacts not found for '' @ js ''Foo''))
   \<and> (\<exists>d. readFileSync
            [((js ''/tmp/monad-deployments'', js ''Foo.json''),
              \<lparr>contractName = js ''Foo'', address = addr1, abi = 7::nat, transactionHash = None,
               network = Some (js ''monad-testnet''), chainId = None, explorerUrl = None,
               deployedAt = None\<rparr>)]
            (js ''/tmp/monad-deployments'', js ''Foo.json'') = Some d
          \<and> address d = addr1)"
  using artifact_saved_and_loaded[of "js ''/tmp''" "[]" "js ''Foo''" "7::nat" addr1
      "(js ''/tmp/monad-deployments'', js ''Foo.json'')"
      "[((js ''/tmp/monad-deployments'', js ''Foo.json''),
        \<lparr>contractName = js ''Foo'', address = addr1, abi = 7, transactionHash = None,
         network = Some (js ''monad-testnet''), chainId = None, explorerUrl = None,
         deployedAt = None\<rparr>)]"
      confirmedDeployment "Some sampleKey" "js ''0x6080''" "js ''0xabc123''" 10143 "js ''Foo''"
      "explorerUrlOf (js ''0xabc123'')" "(js ''/tmp/monad-deployments'', js ''Foo.json'')"
      "[((js ''/tmp/monad-deployments'', js ''Foo.json''),
        \<lparr>contractName = js ''Foo'', address = addr1, abi = 7, transactionHash = Some (js ''0xabc123''),
         network = Some (js ''monad-testnet''), chainId = Some 10143,
         explorerUrl = Some (explorerUrlOf (js ''0xabc123'')), deployedAt = None\<rparr>)]"
      "map asciiLower" "Some [js ''Foo.json'']" "js ''/app''" "js ''2025''"]
    sample_save sample_script sample_name
  by (auto simp: readFileSync_def)

section \<open>Properties of the Version Normalizer\<close>

subsection \<open>What the matchers accept\<close>

lemma in_lit_iff: "r \<in> set (lit l s) \<longleftrightarrow> s = l @ r"
proof
  assume "r \<in> set (lit l s)"
  then have "take (length l) s = l" "r = drop (length l) s"
    by (auto simp: lit_def startsWith_def split: if_splits)
  then show "s = l @ r" by (metis append_take_drop_id)
next
  assume "s = l @ r"
  then show "r \<in> set (lit l s)" by (simp add: lit_def startsWith_def)
qed

lemma in_plus_iff:
  "r \<in> set (plus P s) \<longleftrightarrow> (\<exists>w. w \<noteq> [] \<and> (\<forall>c\<in>set w. P c) \<and> s = w @ r)"
proof (induction s)
  case Nil
  then show ?case by simp
next
  case (Cons c s)
  show ?case
  proof (cases "P c")
    case False
    then show ?thesis by (auto simp: neq_Nil_conv)
  next
    case True
    show ?thesis
    proof
      assume "r \<in> set (plus P (c # s))"
      with True have "r \<in> set (plus P s) \<or> r = s" by auto
      then show "\<exists>w. w \<noteq> [] \<and> (\<forall>c\<in>set w. P c) \<and> c # s = w @ r"
      proof
        assume "r \<in> set (plus P s)"
        with Cons.IH obtain w where "w \<noteq> []" "\<forall>c\<in>set w. P c" "s = w @ r" by auto
        with True show ?thesis by (intro exI[of _ "c # w"]) simp
      next
        assume "r = s"
        with True show ?thesis by (intro exI[of _ "[c]"]) simp
      qed
    next
      assume "\<exists>w. w \<noteq> [] \<and> (\<forall>c\<in>set w. P c) \<and> c # s = w @ r"
      then obtain w where w: "w \<noteq> []" "\<forall>c\<in>set w. P c" "c # s = w @ r" by auto
      then obtain w' where w': "w = c # w'" "s = w' @ r" by (cases w) auto
      show "r \<in> set (plus P (c # s))"
      proof (cases "w' = []")
        case True
        with w' \<open>P c\<close> show ?thesis by simp
      next
        case False
        with w w' have "r \<in> set (plus P s)" using Cons.IH by auto
        with \<open>P c\<close> show ?thesis by simp
      qed
    qed
  qed
qed

lemma in_star_iff:
  "r \<in> set (star P s) \<longleftrightarrow> (\<exists>w. (\<forall>c\<in>set w. P c) \<and> s = w @ r)"
proof
  assume "r \<in> set (star P s)"
  then have "r \<in> set (plus P s) \<or> r = s" by (auto simp: star_def)
  then show "\<exists>w. (\<forall>c\<in>set w. P c) \<and> s = w @ r"
    by (auto simp: in_plus_iff intro: exI[of _ "[]"])
next
  assume "\<exists>w. (\<forall>c\<in>set w. P c) \<and> s = w @ r"
  then obtain w where w: "\<forall>c\<in>set w. P c" "s = w @ r" by auto
  show "r \<in> set (star P s)"
  proof (cases "w = []")
    case True
    with w show ?thesis by (simp add: star_def)
  next
    case False
    with w have "r \<in> set (plus P s)" by (auto simp: in_plus_iff)
    then show ?thesis by (simp add: star_def)
  qed
qed

lemma pragmaRegex_E:
  assumes "(g, r) \<in> set (pragmaRegex s)"
  obtains s1 s2 s3 s4 s5 where "s1 \<in> set (lit (js ''pragma'') s)" "s2 \<in> set (plus isWhiteSpace s1)"
    "s3 \<in> set (lit (js ''solidity'') s2)" "s4 \<in> set (plus isWhiteSpace s3)"
    "s5 \<in> set (plus (\<lambda>c. c \<noteq> of_char CHR '';'') s4)" "r \<in> set (lit (js '';'') s5)"
    "g = take (length s4 - length s5) s4"
  using assms unfolding pragmaRegex_def by auto

lemma pragmaRegex_I:
  assumes "s1 \<in> set (lit (js ''pragma'') s)" "s2 \<in> set (plus isWhiteSpace s1)"
    "s3 \<in> set (lit (js ''solidity'') s2)" "s4 \<in> set (plus isWhiteSpace s3)"
    "s5 \<in> set (plus (\<lambda>c. c \<noteq> of_char CHR '';'') s4)" "r \<in> set (lit (js '';'') s5)"
  shows "(take (length s4 - length s5) s4, r) \<in> set (pragmaRegex s)"
proof -
  from assms(5) have a5: "s5 \<in> set (plus (\<lambda>c. c \<noteq> 59) s4)" by simp
  show ?thesis
    unfolding pragmaRegex_def
    apply simp
    apply (rule bexI[OF _ assms(1)])
    apply (rule bexI[OF _ assms(2)])
    apply (rule bexI[OF _ assms(3)])
    apply (rule bexI[OF _ assms(4)])
    apply (rule bexI[OF _ a5])
    apply (rule imageI[OF assms(6)])
    done
qed

lemma in_pragmaRegex_iff:
  "(g, r) \<in> set (pragmaRegex s) \<longleftrightarrow>
     (\<exists>w1 w2. w1 \<noteq> [] \<and> (\<forall>c\<in>set w1. isWhiteSpace c) \<and> w2 \<noteq> [] \<and> (\<forall>c\<in>set w2. isWhiteSpace c)
        \<and> g \<noteq> [] \<and> of_char CHR '';'' \<notin> set g
        \<and> s = js ''pragma'' @ w1 @ js ''solidity'' @ w2 @ g @ js '';'' @ r)"
proof
  assume "(g, r) \<in> set (pragmaRegex s)"
  then obtain s1 s2 s3 s4 s5 where
    m: "s1 \<in> set (lit (js ''pragma'') s)" "s2 \<in> set (plus isWhiteSpace s1)"
    "s3 \<in> set (lit (js ''solidity'') s2)" "s4 \<in> set (plus isWhiteSpace s3)"
    "s5 \<in> set (plus (\<lambda>c. c \<noteq> of_char CHR '';'') s4)" "r \<in> set (lit (js '';'') s5)"
    "g = take (length s4 - length s5) s4" by (rule pragmaRegex_E)
  from m(1) have a: "s = js ''pragma'' @ s1" by (simp only: in_lit_iff)
  from m(2) obtain w1 where b: "w1 \<noteq> []" "\<forall>c\<in>set w1. isWhiteSpace c" "s1 = w1 @ s2"
    unfolding in_plus_iff by blast
  from m(3) have c: "s2 = js ''solidity'' @ s3" by (simp only: in_lit_iff)
  from m(4) obtain w2 where d: "w2 \<noteq> []" "\<forall>c\<in>set w2. isWhiteSpace c" "s3 = w2 @ s4"
    unfolding in_plus_iff by blast
  from m(5) obtain x where e: "x \<noteq> []" "\<forall>c\<in>set x. c \<noteq> of_char CHR '';''" "s4 = x @ s5"
    unfolding in_plus_iff by blast
  from m(6) have f: "s5 = js '';'' @ r" by (simp only: in_lit_iff)
  from e(3) m(7) have gx: "g = x" by simp
  have "s = js ''pragma'' @ w1 @ js ''solidity'' @ w2 @ g @ js '';'' @ r"
    using a b(3) c d(3) e(3) f gx by simp
  moreover have "of_char CHR '';'' \<notin> set g" using e(2) gx by blast
  ultimately show "\<exists>w1 w2. w1 \<noteq> [] \<and> (\<forall>c\<in>set w1. isWhiteSpace c) \<and> w2 \<noteq> [] \<and> (\<forall>c\<in>set w2. isWhiteSpace c)
        \<and> g \<noteq> [] \<and> of_char CHR '';'' \<notin> set g
        \<and> s = js ''pragma'' @ w1 @ js ''solidity'' @ w2 @ g @ js '';'' @ r"
    using b(1,2) d(1,2) e(1) gx by blast
next
  assume "\<exists>w1 w2. w1 \<noteq> [] \<and> (\<forall>c\<in>set w1. isWhiteSpace c) \<and> w2 \<noteq> [] \<and> (\<forall>c\<in>set w2. isWhiteSpace c)
        \<and> g \<noteq> [] \<and> of_char CHR '';'' \<notin> set g
        \<and> s = js ''pragma'' @ w1 @ js ''solidity'' @ w2 @ g @ js '';'' @ r"
  then obtain w1 w2 where
    h: "w1 \<noteq> []" "\<forall>c\<in>set w1. isWhiteSpace c" "w2 \<noteq> []" "\<forall>c\<in>set w2. isWhiteSpace c"
       "g \<noteq> []" "of_char CHR '';'' \<notin> set g"
       "s = js ''pragma'' @ w1 @ js ''solidity'' @ w2 @ g @ js '';'' @ r" by blast
  have 1: "w1 @ js ''solidity'' @ w2 @ g @ js '';'' @ r \<in> set (lit (js ''pragma'') s)"
    using h(7) by (simp only: in_lit_iff)
  have 2: "js ''solidity'' @ w2 @ g @ js '';'' @ r
             \<in> set (plus isWhiteSpace (w1 @ js ''solidity'' @ w2 @ g @ js '';'' @ r))"
    unfolding in_plus_iff using h(1,2) by blast
  have 3: "w2 @ g @ js '';'' @ r \<in> set (lit (js ''solidity'') (js ''solidity'' @ w2 @ g @ js '';'' @ r))"
    by (simp only: in_lit_iff)
  have 4: "g @ js '';'' @ r \<in> set (plus isWhiteSpace (w2 @ g @ js '';'' @ r))"
    unfolding in_plus_iff using h(3,4) by blast
  have 5: "js '';'' @ r \<in> set (plus (\<lambda>c. c \<noteq> of_char CHR '';'') (g @ js '';'' @ r))"
    unfolding in_plus_iff using h(5,6) by blast
  have 6: "r \<in> set (lit (js '';'') (js '';'' @ r))"
    by (simp only: in_lit_iff)
  have 7: "take (length (g @ js '';'' @ r) - length (js '';'' @ r)) (g @ js '';'' @ r) = g"
    by simp
  from pragmaRegex_I[OF 1 2 3 4 5 6] 7 show "(g, r) \<in> set (pragmaRegex s)" by simp
qed

lemma ws_not_semicolon: "isWhiteSpace c \<Longrightarrow> c \<noteq> 59"
  by (auto simp: isWhiteSpace_def)

lemma ws_facts: "\<not> isWhiteSpace 112" "\<not> isWhiteSpace 115"
  by (simp_all add: isWhiteSpace_def)

lemma js_pragma: "js ''pragma'' = [112, 114, 97, 103, 109, 97]"
  by (simp add: js_def)

lemma js_solidity: "js ''solidity'' = [115, 111, 108, 105, 100, 105, 116, 121]"
  by (simp add: js_def)

lemma js_semicolon: "js '';'' = [59]"
  by (simp add: js_def)

lemma takeWhile_until: "c \<notin> set u \<Longrightarrow> takeWhile (\<lambda>x. x \<noteq> c) (u @ c # r) = u"
  by (induction u) auto

lemma split_at_first_unique:
  assumes "u @ c # r = u' @ c # r'" "c \<notin> set u" "c \<notin> set u'"
  shows "u = u' \<and> r = r'"
proof -
  have "takeWhile (\<lambda>x. x \<noteq> c) (u @ c # r) = u" using assms(2) by (rule takeWhile_until)
  moreover have "takeWhile (\<lambda>x. x \<noteq> c) (u' @ c # r') = u'" using assms(3) by (rule takeWhile_until)
  ultimately have "u = u'" using assms(1) by simp
  with assms(1) show ?thesis by simp
qed

lemma takeWhile_run: "\<forall>x\<in>set w. P x \<Longrightarrow> \<not> P c \<Longrightarrow> takeWhile P (w @ c # t) = w"
  by (induction w) auto

lemma run_unique:
  assumes "w @ c # t = w' @ c' # t'" "\<forall>x\<in>set w. P x" "\<forall>x\<in>set w'. P x" "\<not> P c" "\<not> P c'"
  shows "w = w' \<and> c # t = c' # t'"
proof -
  have "takeWhile P (w @ c # t) = w" using assms(2,4) by (rule takeWhile_run)
  moreover have "takeWhile P (w' @ c' # t') = w'" using assms(3,5) by (rule takeWhile_run)
  ultimately have "w = w'" using assms(1) by simp
  with assms(1) show ?thesis by simp
qed

lemma pragmaRegex_rest_unique:
  assumes "(g, r) \<in> set (pragmaRegex s)" "(g', r') \<in> set (pragmaRegex s)"
  shows "r = r'"
proof -
  from assms(1) obtain w1 w2 where
    a: "w1 \<noteq> []" "\<forall>c\<in>set w1. isWhiteSpace c" "w2 \<noteq> []" "\<forall>c\<in>set w2. isWhiteSpace c"
       "g \<noteq> []" "of_char CHR '';'' \<notin> set g"
       "s = js ''pragma'' @ w1 @ js ''solidity'' @ w2 @ g @ js '';'' @ r"
    unfolding in_pragmaRegex_iff by blast
  from assms(2) obtain v1 v2 where
    b: "v1 \<noteq> []" "\<forall>c\<in>set v1. isWhiteSpace c" "v2 \<noteq> []" "\<forall>c\<in>set v2. isWhiteSpace c"
       "g' \<noteq> []" "of_char CHR '';'' \<notin> set g'"
       "s = js ''pragma'' @ v1 @ js ''solidity'' @ v2 @ g' @ js '';'' @ r'"
    unfolding in_pragmaRegex_iff by blast
  from a(7) b(7) have
    "w1 @ 115 # ([111, 108, 105, 100, 105, 116, 121] @ w2 @ g @ js '';'' @ r)
     = v1 @ 115 # ([111, 108, 105, 100, 105, 116, 121] @ v2 @ g' @ js '';'' @ r')"
    by (simp add: js_solidity)
  from run_unique[OF this a(2) b(2) ws_facts(2) ws_facts(2)]
  have "(w2 @ g) @ 59 # r = (v2 @ g') @ 59 # r'" by (simp add: js_semicolon)
  moreover have "59 \<notin> set (w2 @ g)" using a(4,6) ws_not_semicolon by auto
  moreover have "59 \<notin> set (v2 @ g')" using b(4,6) ws_not_semicolon by auto
  ultimately show ?thesis by (rule split_at_first_unique[THEN conjunct2])
qed

lemma pragmaRegex_hd_rest:
  assumes "(g, r) \<in> set (pragmaRegex s)"
  shows "\<exists>g' rs. pragmaRegex s = (g', r) # rs"
proof (cases "pragmaRegex s")
  case Nil
  with assms show ?thesis by simp
next
  case (Cons x rs)
  obtain g' r' where x: "x = (g', r')" by (cases x)
  with Cons have "(g', r') \<in> set (pragmaRegex s)" by simp
  from pragmaRegex_rest_unique[OF assms this] x Cons show ?thesis by simp
qed

lemma regexExec_Some_D:
  "regexExec m b s = Some (b', g, r) \<Longrightarrow>
   \<exists>p mt rs. b' = b @ p \<and> s = p @ mt \<and> m mt = (g, r) # rs
     \<and> (\<forall>p1 p2. p = p1 @ p2 \<and> p2 \<noteq> [] \<longrightarrow> m (p2 @ mt) = [])"
proof (induction s arbitrary: b)
  case Nil
  then obtain rs where "m [] = (g, r) # rs" "b' = b"
    by (cases "m []") (auto split: prod.splits)
  then show ?case by (intro exI[of _ "[]"] exI[of _ rs]) simp
next
  case (Cons c s)
  show ?case
  proof (cases "m (c # s)")
    case Nil
    with Cons.prems have "regexExec m (b @ [c]) s = Some (b', g, r)" by simp
    from Cons.IH[OF this] obtain p mt rs where
      h: "b' = (b @ [c]) @ p" "s = p @ mt" "m mt = (g, r) # rs"
         "\<forall>p1 p2. p = p1 @ p2 \<and> p2 \<noteq> [] \<longrightarrow> m (p2 @ mt) = []" by blast
    have "\<forall>p1 p2. c # p = p1 @ p2 \<and> p2 \<noteq> [] \<longrightarrow> m (p2 @ mt) = []"
    proof (intro allI impI)
      fix p1 p2 assume a: "c # p = p1 @ p2 \<and> p2 \<noteq> []"
      show "m (p2 @ mt) = []"
      proof (cases p1)
        case Nil
        with a have "p2 @ mt = c # s" using h(2) by simp
        with \<open>m (c # s) = []\<close> show ?thesis by simp
      next
        case (Cons x p1')
        with a have "p = p1' @ p2 \<and> p2 \<noteq> []" by simp
        with h(4) show ?thesis by blast
      qed
    qed
    with h show ?thesis by (intro exI[of _ "c # p"] exI[of _ mt] exI[of _ rs]) simp
  next
    case (Cons x rs)
    with Cons.prems have "x = (g, r)" "b' = b" by (auto split: prod.splits)
    with Cons show ?thesis by (intro exI[of _ "[]"] exI[of _ "c # s"] exI[of _ rs]) simp
  qed
qed

lemma regexExec_Some_I:
  "m mt = (g, r) # rs \<Longrightarrow> (\<forall>p1 p2. p = p1 @ p2 \<and> p2 \<noteq> [] \<longrightarrow> m (p2 @ mt) = []) \<Longrightarrow>
   regexExec m b (p @ mt) = Some (b @ p, g, r)"
proof (induction p arbitrary: b)
  case Nil
  then show ?case by (cases mt) auto
next
  case (Cons c p)
  from Cons.prems(2) have "m ((c # p) @ mt) = []" by blast
  moreover have "\<forall>p1 p2. p = p1 @ p2 \<and> p2 \<noteq> [] \<longrightarrow> m (p2 @ mt) = []"
  proof (intro allI impI)
    fix p1 p2 assume "p = p1 @ p2 \<and> p2 \<noteq> []"
    then have "c # p = (c # p1) @ p2 \<and> p2 \<noteq> []" by simp
    with Cons.prems(2) show "m (p2 @ mt) = []" by blast
  qed
  ultimately show ?case using Cons.IH[OF Cons.prems(1), of "b @ [c]"] by simp
qed

lemma regexExec_None_iff:
  "regexExec m b s = None \<longleftrightarrow> (\<forall>p1 p2. s = p1 @ p2 \<longrightarrow> m p2 = [])"
proof (induction s arbitrary: b)
  case Nil
  then show ?case by (cases "m []") (auto split: prod.splits)
next
  case (Cons c s)
  show ?case
  proof (cases "m (c # s)")
    case Nil
    have "(\<forall>p1 p2. c # s = p1 @ p2 \<longrightarrow> m p2 = []) \<longleftrightarrow> (\<forall>p1 p2. s = p1 @ p2 \<longrightarrow> m p2 = [])"
    proof
      assume a: "\<forall>p1 p2. c # s = p1 @ p2 \<longrightarrow> m p2 = []"
      show "\<forall>p1 p2. s = p1 @ p2 \<longrightarrow> m p2 = []"
      proof (intro allI impI)
        fix p1 p2 assume "s = p1 @ p2"
        then have "c # s = (c # p1) @ p2" by simp
        with a show "m p2 = []" by blast
      qed
    next
      assume a: "\<forall>p1 p2. s = p1 @ p2 \<longrightarrow> m p2 = []"
      show "\<forall>p1 p2. c # s = p1 @ p2 \<longrightarrow> m p2 = []"
      proof (intro allI impI)
        fix p1 p2 assume b: "c # s = p1 @ p2"
        show "m p2 = []"
        proof (cases p1)
          case Nil
          with b Cons.prems \<open>m (c # s) = []\<close> show ?thesis by simp
        next
          case (Cons x p1')
          with b have "s = p1' @ p2" by simp
          with a show ?thesis by blast
        qed
      qed
    qed
    with Nil Cons.IH[of "b @ [c]"] show ?thesis by simp
  next
    case (Cons x rs)
    then have 1: "regexExec m b (c # s) \<noteq> None" by (auto split: prod.splits)
    have "c # s = [] @ (c # s)" by simp
    with Cons have 2: "\<not> (\<forall>p1 p2. c # s = p1 @ p2 \<longrightarrow> m p2 = [])" by (metis list.distinct(1))
    from 1 2 show ?thesis by blast
  qed
qed

subsection \<open>An attempt that starts before a directive\<close>

text \<open>
  An attempt to match that starts before a text beginning with \<open>p\<close> has read the whole
  head \<open>pragma\<close>, white space, \<open>solidity\<close>, white space before it reaches that text. So its
  success does not depend on which directive follows, as long as a semicolon does.
\<close>

lemma pragma_prefix_covers:
  assumes ws1: "\<forall>c\<in>set w1. isWhiteSpace c" and ws2: "\<forall>c\<in>set w2. isWhiteSpace c"
    and a: "a \<noteq> []"
    and eq: "a @ 112 # t = js ''pragma'' @ w1 @ js ''solidity'' @ w2 @ u"
  shows "\<exists>a'. a = js ''pragma'' @ w1 @ js ''solidity'' @ w2 @ a'"
proof -
  let ?H' = "[114, 97, 103, 109, 97] @ w1 @ js ''solidity'' @ w2"
  let ?H = "js ''pragma'' @ w1 @ js ''solidity'' @ w2"
  have H: "?H = 112 # ?H'" by (simp add: js_pragma)
  have np: "112 \<notin> set ?H'"
    using ws1 ws2 ws_facts(1) by (auto simp: js_solidity)
  have le: "length ?H \<le> length a"
  proof (rule ccontr)
    assume "\<not> length ?H \<le> length a"
    then have lt: "length a < length ?H" by simp
    from a have pos: "0 < length a" by simp
    have "(a @ 112 # t) ! length a = 112" by simp
    moreover have "(?H @ u) ! length a = ?H ! length a" using lt by (simp only: nth_append if_True)
    moreover have "a @ 112 # t = ?H @ u" using eq by simp
    ultimately have "?H ! length a = 112" by simp
    then have "(112 # ?H') ! length a = 112" using H by simp
    then have "?H' ! (length a - 1) = 112" using pos by (simp add: nth_Cons')
    moreover have "length a - 1 < length ?H'" using lt pos H by simp
    ultimately have "112 \<in> set ?H'" by (metis nth_mem)
    with np show False by simp
  qed
  from eq have "a @ 112 # t = ?H @ u" by simp
  then have "take (length ?H) (a @ 112 # t) = ?H" by simp
  with le have "take (length ?H) a = ?H" by simp
  then have "a = ?H @ drop (length ?H) a" by (metis append_take_drop_id)
  then show ?thesis by (intro exI[of _ "drop (length ?H) a"]) simp
qed

lemma pragma_attempt_before_directive:
  assumes a: "a \<noteq> []"
    and m: "pragmaRegex (a @ 112 # d @ r) \<noteq> []"
    and sc: "59 \<in> set d'"
  shows "pragmaRegex (a @ 112 # d' @ r') \<noteq> []"
proof -
  from m obtain g0 r0 where "(g0, r0) \<in> set (pragmaRegex (a @ 112 # d @ r))"
    by (cases "pragmaRegex (a @ 112 # d @ r)") auto
  then obtain w1 w2 where
    h: "w1 \<noteq> []" "\<forall>c\<in>set w1. isWhiteSpace c" "w2 \<noteq> []" "\<forall>c\<in>set w2. isWhiteSpace c"
       "g0 \<noteq> []" "59 \<notin> set g0"
       "a @ 112 # d @ r = js ''pragma'' @ w1 @ js ''solidity'' @ w2 @ g0 @ js '';'' @ r0"
    unfolding in_pragmaRegex_iff by auto
  from pragma_prefix_covers[OF h(2) h(4) a h(7)] obtain a' where
    a': "a = js ''pragma'' @ w1 @ js ''solidity'' @ w2 @ a'" by blast
  with h(7) have rest: "a' @ 112 # d @ r = g0 @ js '';'' @ r0" by simp
  let ?t = "a' @ 112 # d' @ r'"
  let ?x = "takeWhile (\<lambda>c. c \<noteq> 59) ?t"
  have in_t: "59 \<in> set ?t" using sc by simp
  have hd_t: "hd ?t \<noteq> 59"
  proof (cases a')
    case Nil
    then show ?thesis by simp
  next
    case (Cons c a'')
    with rest h(5) have "c = hd g0" by (cases g0) auto
    with h(5,6) have "c \<noteq> 59" by (metis hd_in_set)
    with Cons show ?thesis by simp
  qed
  have x_ne: "?x \<noteq> []" using hd_t by (cases ?t) auto
  have x_no: "59 \<notin> set ?x" by (auto dest: set_takeWhileD)
  from in_t have dw: "dropWhile (\<lambda>c. c \<noteq> 59) ?t \<noteq> []" by (simp add: dropWhile_eq_Nil_conv)
  then have "hd (dropWhile (\<lambda>c. c \<noteq> 59) ?t) = 59"
    using hd_dropWhile[of "\<lambda>c. c \<noteq> 59" ?t] by simp
  with dw have "dropWhile (\<lambda>c. c \<noteq> 59) ?t = 59 # tl (dropWhile (\<lambda>c. c \<noteq> 59) ?t)"
    by (metis list.collapse)
  then have split: "?t = ?x @ js '';'' @ tl (dropWhile (\<lambda>c. c \<noteq> 59) ?t)"
    by (metis append_Cons append_Nil js_semicolon takeWhile_dropWhile_id)
  have "(?x, tl (dropWhile (\<lambda>c. c \<noteq> 59) ?t)) \<in> set (pragmaRegex (a @ 112 # d' @ r'))"
    unfolding in_pragmaRegex_iff
    apply (rule exI[of _ w1], rule exI[of _ w2])
    using h(1-4) x_ne x_no a' split by simp
  then show ?thesis by auto
qed

lemma requiredPragma_eq: "requiredPragma = 112 # js ''ragma solidity 0.8.28;''"
  by (simp add: requiredPragma_def js_def)

lemma requiredPragma_matches: "\<exists>g rs. pragmaRegex (requiredPragma @ r) = (g, r) # rs"
proof -
  have "(js ''0.8.28'', r) \<in> set (pragmaRegex (requiredPragma @ r))"
    unfolding in_pragmaRegex_iff
    apply (rule exI[of _ "js '' ''"], rule exI[of _ "js '' ''"])
    apply (simp add: requiredPragma_def js_def isWhiteSpace_def)
    done
  then show ?thesis by (rule pragmaRegex_hd_rest)
qed

lemma replaced_is_fixed:
  assumes "regexExec pragmaRegex [] s = Some (p, g, r)"
  shows "\<exists>g'. regexExec pragmaRegex [] (p @ requiredPragma @ r) = Some (p, g', r)"
proof -
  from regexExec_Some_D[OF assms] obtain mt rs where
    h: "s = p @ mt" "pragmaRegex mt = (g, r) # rs"
       "\<forall>p1 p2. p = p1 @ p2 \<and> p2 \<noteq> [] \<longrightarrow> pragmaRegex (p2 @ mt) = []" by auto
  from h(2) have "(g, r) \<in> set (pragmaRegex mt)" by simp
  then obtain w1 w2 where
    mt: "mt = js ''pragma'' @ w1 @ js ''solidity'' @ w2 @ g @ js '';'' @ r"
    unfolding in_pragmaRegex_iff by auto
  let ?d = "[114, 97, 103, 109, 97] @ w1 @ js ''solidity'' @ w2 @ g @ js '';''"
  have mt': "mt = 112 # ?d @ r" using mt by (simp add: js_pragma)
  have sc: "59 \<in> set ?d" by (simp add: js_semicolon)
  from requiredPragma_matches[of r] obtain g' rs' where
    new: "pragmaRegex (requiredPragma @ r) = (g', r) # rs'" by blast
  have "\<forall>p1 p2. p = p1 @ p2 \<and> p2 \<noteq> [] \<longrightarrow> pragmaRegex (p2 @ requiredPragma @ r) = []"
  proof (intro allI impI)
    fix p1 p2 assume a: "p = p1 @ p2 \<and> p2 \<noteq> []"
    show "pragmaRegex (p2 @ requiredPragma @ r) = []"
    proof (rule ccontr)
      assume "pragmaRegex (p2 @ requiredPragma @ r) \<noteq> []"
      then have "pragmaRegex (p2 @ 112 # js ''ragma solidity 0.8.28;'' @ r) \<noteq> []"
        by (simp add: requiredPragma_eq)
      from pragma_attempt_before_directive[OF _ this sc, of r] a
      have "pragmaRegex (p2 @ mt) \<noteq> []" using mt' by simp
      with h(3) a show False by blast
    qed
  qed
  from regexExec_Some_I[OF new this, of "[]"] show ?thesis by auto
qed

lemma forceVersion_fallback: "forceVersion (JString fallbackSource) = fallbackSource"
  by code_simp

lemma requiredPragma_nonempty: "requiredPragma \<noteq> []"
  by (simp add: requiredPragma_eq)

lemma pragmaRegex_Nil: "pragmaRegex [] = []"
  by (simp add: pragmaRegex_def lit_def startsWith_def js_def)

lemma pragmaRegex_not_p: "c \<noteq> 112 \<Longrightarrow> pragmaRegex (c # s) = []"
  by (simp add: pragmaRegex_def lit_def startsWith_def js_def)

lemma sample_directive:
  "regexExec pragmaRegex [] (js ''// old\<newline>pragma solidity ^0.8.0;\<newline>contract A {}'')
   = Some (js ''// old\<newline>'', js ''^0.8.0'', js ''\<newline>contract A {}'')"
  by code_simp

lemma spdxRegex_D:
  assumes "(g, r) \<in> set (spdxRegex s)"
  shows "\<exists>w x. (\<forall>c\<in>set w. isWhiteSpace c) \<and> x \<noteq> [] \<and> 10 \<notin> set x
           \<and> g = js ''//'' @ w @ js ''SPDX-License-Identifier:'' @ x @ js ''\<newline>'' \<and> s = g @ r"
proof -
  from assms obtain s1 s2 s3 s4 where
    m: "s1 \<in> set (lit (js ''//'') s)" "s2 \<in> set (star isWhiteSpace s1)"
       "s3 \<in> set (lit (js ''SPDX-License-Identifier:'') s2)"
       "s4 \<in> set (plus (\<lambda>c. c \<noteq> 10) s3)" "r \<in> set (lit (js ''\<newline>'') s4)"
       "g = take (length s - length r) s"
    unfolding spdxRegex_def by auto
  from m(1) have a: "s = js ''//'' @ s1" by (simp only: in_lit_iff)
  from m(2) obtain w where b: "\<forall>c\<in>set w. isWhiteSpace c" "s1 = w @ s2"
    unfolding in_star_iff by blast
  from m(3) have c: "s2 = js ''SPDX-License-Identifier:'' @ s3" by (simp only: in_lit_iff)
  from m(4) obtain x where d: "x \<noteq> []" "\<forall>c\<in>set x. c \<noteq> 10" "s3 = x @ s4"
    unfolding in_plus_iff by blast
  from m(5) have e: "s4 = js ''\<newline>'' @ r" by (simp only: in_lit_iff)
  let ?g = "js ''//'' @ w @ js ''SPDX-License-Identifier:'' @ x @ js ''\<newline>''"
  have s: "s = ?g @ r" using a b(2) c d(3) e by simp
  then have "g = ?g" using m(6) by simp
  with s d b(1) show ?thesis by (intro exI[of _ w] exI[of _ x]) auto
qed

lemma spdxRegex_I0:
  assumes "s1 \<in> set (lit (js ''//'') s)" "s2 \<in> set (star isWhiteSpace s1)"
    "s3 \<in> set (lit (js ''SPDX-License-Identifier:'') s2)"
    "s4 \<in> set (plus (\<lambda>c. c \<noteq> 10) s3)" "s5 \<in> set (lit (js ''\<newline>'') s4)"
  shows "(take (length s - length s5) s, s5) \<in> set (spdxRegex s)"
  unfolding spdxRegex_def
  apply simp
  apply (rule bexI[OF _ assms(1)])
  apply (rule bexI[OF _ assms(2)])
  apply (rule bexI[OF _ assms(3)])
  apply (rule bexI[OF _ assms(4)])
  apply (rule imageI[OF assms(5)])
  done

lemma spdxRegex_I:
  assumes "\<forall>c\<in>set w. isWhiteSpace c" "x \<noteq> []" "10 \<notin> set x"
  shows "spdxRegex (js ''//'' @ w @ js ''SPDX-License-Identifier:'' @ x @ js ''\<newline>'' @ r) \<noteq> []"
proof -
  let ?s = "js ''//'' @ w @ js ''SPDX-License-Identifier:'' @ x @ js ''\<newline>'' @ r"
  have 1: "w @ js ''SPDX-License-Identifier:'' @ x @ js ''\<newline>'' @ r \<in> set (lit (js ''//'') ?s)"
    by (simp only: in_lit_iff)
  have 2: "js ''SPDX-License-Identifier:'' @ x @ js ''\<newline>'' @ r
      \<in> set (star isWhiteSpace (w @ js ''SPDX-License-Identifier:'' @ x @ js ''\<newline>'' @ r))"
    unfolding in_star_iff using assms(1) by blast
  have 3: "x @ js ''\<newline>'' @ r
      \<in> set (lit (js ''SPDX-License-Identifier:'') (js ''SPDX-License-Identifier:'' @ x @ js ''\<newline>'' @ r))"
    by (simp only: in_lit_iff)
  have 4: "js ''\<newline>'' @ r \<in> set (plus (\<lambda>c. c \<noteq> 10) (x @ js ''\<newline>'' @ r))"
    unfolding in_plus_iff using assms(2,3) by blast
  have 5: "r \<in> set (lit (js ''\<newline>'') (js ''\<newline>'' @ r))"
    by (simp only: in_lit_iff)
  have "(take (length ?s - length r) ?s, r) \<in> set (spdxRegex ?s)"
    by (rule spdxRegex_I0[OF 1 2 3 4 5])
  then show ?thesis by auto
qed

lemma getSubstitution_no_dollar:
  "36 \<notin> set t \<Longrightarrow> getSubstitution m b a t = t"
  by (induction m b a t rule: getSubstitution.induct) auto

lemma replaceString_spdx:
  assumes "regexExec spdxRegex [] s = Some (front, spdx, back)"
    and "36 \<notin> set spdx" "36 \<notin> set ins"
  shows "s = front @ spdx @ back \<and> replaceString s spdx (spdx @ ins) = front @ spdx @ ins @ back"
proof -
  from regexExec_Some_D[OF assms(1)] obtain mt rs where
    h: "s = front @ mt" "spdxRegex mt = (spdx, back) # rs"
       "\<forall>p1 p2. front = p1 @ p2 \<and> p2 \<noteq> [] \<longrightarrow> spdxRegex (p2 @ mt) = []" by auto
  from h(2) have "(spdx, back) \<in> set (spdxRegex mt)" by simp
  from spdxRegex_D[OF this] obtain w x where
    d: "\<forall>c\<in>set w. isWhiteSpace c" "x \<noteq> []" "10 \<notin> set x"
       "spdx = js ''//'' @ w @ js ''SPDX-License-Identifier:'' @ x @ js ''\<newline>''" "mt = spdx @ back"
    by blast
  let ?m = "\<lambda>s. map (Pair ()) (lit spdx s)"
  have here: "?m mt = ((), back) # []" using d(5) by (simp add: lit_def startsWith_def)
  have "\<forall>p1 p2. front = p1 @ p2 \<and> p2 \<noteq> [] \<longrightarrow> ?m (p2 @ mt) = []"
  proof (intro allI impI)
    fix p1 p2 assume a: "front = p1 @ p2 \<and> p2 \<noteq> []"
    show "?m (p2 @ mt) = []"
    proof (rule ccontr)
      assume "?m (p2 @ mt) \<noteq> []"
      then obtain r' where "r' \<in> set (lit spdx (p2 @ mt))" by (cases "lit spdx (p2 @ mt)") auto
      then have "p2 @ mt = spdx @ r'" by (simp only: in_lit_iff)
      then have "p2 @ mt = js ''//'' @ w @ js ''SPDX-License-Identifier:'' @ x @ js ''\<newline>'' @ r'"
        using d(4) by simp
      with spdxRegex_I[OF d(1,2,3), of r'] have "spdxRegex (p2 @ mt) \<noteq> []" by simp
      with h(3) a show False by blast
    qed
  qed
  from regexExec_Some_I[where m = ?m and b = "[]", OF here this]
  have "regexExec ?m [] s = Some (front, (), back)" using h(1) by simp
  moreover have "36 \<notin> set (spdx @ ins)" using assms(2,3) by simp
  ultimately have "replaceString s spdx (spdx @ ins) = front @ (spdx @ ins) @ back"
    by (simp add: replaceString_def getSubstitution_no_dollar)
  with h(1) d(5) show ?thesis by simp
qed

lemma no_directive_after_newline:
  assumes "regexExec pragmaRegex [] (t @ s) = None"
  shows "regexExec pragmaRegex [] (10 # s) = None"
  unfolding regexExec_None_iff
proof (intro allI impI)
  fix p1 p2 assume a: "10 # s = p1 @ p2"
  show "pragmaRegex p2 = []"
  proof (cases p1)
    case Nil
    with a show ?thesis by (simp add: pragmaRegex_not_p[of 10 s, symmetric])
  next
    case (Cons c p1')
    with a have "t @ s = (t @ p1') @ p2" by simp
    with assms show ?thesis unfolding regexExec_None_iff by blast
  qed
qed

lemma suffix_snoc:
  assumes "A @ [c] = f @ a2" "a2 \<noteq> []"
  shows "\<exists>a3. a2 = a3 @ [c] \<and> A = f @ a3"
proof -
  from assms(2) obtain a3 l where a2: "a2 = a3 @ [l]" by (metis rev_exhaust)
  with assms(1) have "A @ [c] = (f @ a3) @ [l]" by simp
  then have "A = f @ a3" "c = l" by (simp_all only: append1_eq_conv)
  with a2 show ?thesis by simp
qed

lemma one_directive_after_insertion:
  assumes none: "regexExec pragmaRegex [] (A @ back) = None"
  shows "\<exists>f g. regexExec pragmaRegex [] (A @ js ''\<newline>'' @ requiredPragma @ js ''\<newline>'' @ back)
                 = Some (f, g, js ''\<newline>'' @ back)"
proof -
  let ?R = "js ''\<newline>'' @ back"
  let ?A = "A @ js ''\<newline>''"
  let ?out = "?A @ requiredPragma @ ?R"
  from requiredPragma_matches[of ?R] obtain g0 rs0 where
    new: "pragmaRegex (requiredPragma @ ?R) = (g0, ?R) # rs0" by blast
  have "regexExec pragmaRegex [] ?out \<noteq> None"
    unfolding regexExec_None_iff using new by (metis list.distinct(1))
  then obtain f g r' where ex: "regexExec pragmaRegex [] ?out = Some (f, g, r')" by auto
  from regexExec_Some_D[OF ex] obtain mt rs where
    h: "?out = f @ mt" "pragmaRegex mt = (g, r') # rs"
       "\<forall>p1 p2. f = p1 @ p2 \<and> p2 \<noteq> [] \<longrightarrow> pragmaRegex (p2 @ mt) = []" by auto
  have le: "length f \<le> length ?A"
  proof (rule ccontr)
    assume "\<not> length f \<le> length ?A"
    then have lt: "length ?A < length f" by simp
    from h(1) have "take (length ?A) (f @ mt) = ?A" by (metis append_eq_conv_conj)
    with lt have fA: "take (length ?A) f = ?A" by simp
    then have f: "f = ?A @ drop (length ?A) f" by (metis append_take_drop_id)
    from lt have ne: "drop (length ?A) f \<noteq> []" by simp
    from f h(1) have "?A @ requiredPragma @ ?R = ?A @ drop (length ?A) f @ mt"
      by (metis append.assoc)
    then have "drop (length ?A) f @ mt = requiredPragma @ ?R" by simp
    moreover from h(3) f ne have "pragmaRegex (drop (length ?A) f @ mt) = []" by blast
    ultimately show False using new by simp
  qed
  from h(1) have "take (length f) (?A @ requiredPragma @ ?R) = f" by (metis append_eq_conv_conj)
  with le have "take (length f) ?A = f" by simp
  then have Af: "?A = f @ drop (length f) ?A" by (metis append_take_drop_id)
  define a2 where "a2 = drop (length f) ?A"
  from Af have Af': "?A = f @ a2" by (simp add: a2_def)
  with h(1) have "f @ a2 @ requiredPragma @ ?R = f @ mt" by (metis append.assoc)
  then have mt: "mt = a2 @ requiredPragma @ ?R" by simp
  have "r' = ?R"
  proof (cases "a2 = []")
    case True
    with mt new h(2) show ?thesis by simp
  next
    case False
    from h(2) have "(g, r') \<in> set (pragmaRegex mt)" by simp
    then obtain w1 w2 where
      d: "w1 \<noteq> []" "\<forall>c\<in>set w1. isWhiteSpace c" "w2 \<noteq> []" "\<forall>c\<in>set w2. isWhiteSpace c"
         "g \<noteq> []" "59 \<notin> set g"
         "mt = js ''pragma'' @ w1 @ js ''solidity'' @ w2 @ g @ js '';'' @ r'"
      unfolding in_pragmaRegex_iff by auto
    have "a2 @ 112 # (js ''ragma solidity 0.8.28;'' @ ?R)
            = js ''pragma'' @ w1 @ js ''solidity'' @ w2 @ g @ js '';'' @ r'"
      using mt d(7) by (simp add: requiredPragma_eq)
    from pragma_prefix_covers[OF d(2) d(4) False this] obtain a' where
      a': "a2 = js ''pragma'' @ w1 @ js ''solidity'' @ w2 @ a'" by blast
    with mt d(7) have rest: "a' @ requiredPragma @ ?R = g @ js '';'' @ r'" by simp
    have no: "59 \<notin> set a'"
    proof
      assume "59 \<in> set a'"
      then obtain x1 a'' where sp: "a' = x1 @ 59 # a''" "59 \<notin> set x1"
        by (meson split_list_first)
      with rest have "x1 @ 59 # (a'' @ requiredPragma @ ?R) = g @ 59 # r'"
        by (simp add: js_semicolon)
      from split_at_first_unique[OF this sp(2) d(6)] have gx: "x1 = g" by simp
      from Af' have "A @ [10] = f @ a2" by (simp add: js_def)
      from suffix_snoc[OF this False] obtain a3 where a3: "a2 = a3 @ [10]" "A = f @ a3" by blast
      from a3(1) a' sp(1) gx have
        e: "a3 @ [10] = (js ''pragma'' @ w1 @ js ''solidity'' @ w2 @ g @ [59]) @ a''" by simp
      have "a'' \<noteq> []"
      proof
        assume "a'' = []"
        with e have "a3 @ [10] = (js ''pragma'' @ w1 @ js ''solidity'' @ w2 @ g) @ [59]" by simp
        then have "(10::jschar) = 59" by (simp only: append1_eq_conv)
        then show False by simp
      qed
      from suffix_snoc[OF e this] obtain a4 where
        a4: "a3 = (js ''pragma'' @ w1 @ js ''solidity'' @ w2 @ g @ [59]) @ a4" by blast
      have "(g, a4 @ back) \<in> set (pragmaRegex (a3 @ back))"
        unfolding in_pragmaRegex_iff
        apply (rule exI[of _ w1], rule exI[of _ w2])
        using d(1-6) a4 by (simp add: js_semicolon)
      then have "pragmaRegex (a3 @ back) \<noteq> []" by auto
      moreover have "A @ back = f @ (a3 @ back)" using a3(2) by simp
      ultimately show False using none unfolding regexExec_None_iff by blast
    qed
    have rp: "requiredPragma = js ''pragma solidity 0.8.28'' @ [59]"
      by (simp add: requiredPragma_def js_def)
    from rest have "(a' @ js ''pragma solidity 0.8.28'') @ 59 # ?R = g @ 59 # r'"
      unfolding rp by (simp add: js_semicolon)
    moreover have "59 \<notin> set (a' @ js ''pragma solidity 0.8.28'')" using no by (simp add: js_def)
    ultimately show ?thesis using d(6) split_at_first_unique by metis
  qed
  with ex show ?thesis by auto
qed

lemma inserted_at_top:
  assumes "regexExec pragmaRegex [] s = None"
  shows "(\<exists>g. regexExec pragmaRegex [] (requiredPragma @ js ''\<newline>\<newline>'' @ s)
             = Some ([], g, js ''\<newline>\<newline>'' @ s))
       \<and> regexExec pragmaRegex [] (js ''\<newline>\<newline>'' @ s) = None"
proof -
  from requiredPragma_matches[of "js ''\<newline>\<newline>'' @ s"] obtain g rs where
    new: "pragmaRegex (requiredPragma @ js ''\<newline>\<newline>'' @ s) = (g, js ''\<newline>\<newline>'' @ s) # rs" by blast
  have "regexExec pragmaRegex [] ([] @ requiredPragma @ js ''\<newline>\<newline>'' @ s)
          = Some ([] @ [], g, js ''\<newline>\<newline>'' @ s)"
    by (rule regexExec_Some_I[where m = pragmaRegex and p = "[]" and b = "[]", OF new]) simp
  then have 1: "\<exists>g. regexExec pragmaRegex [] (requiredPragma @ js ''\<newline>\<newline>'' @ s)
             = Some ([], g, js ''\<newline>\<newline>'' @ s)" by simp
  from assms have "regexExec pragmaRegex [] ([] @ s) = None" by simp
  then have "regexExec pragmaRegex [] (10 # s) = None" by (rule no_directive_after_newline)
  then have "regexExec pragmaRegex [] ([] @ 10 # s) = None" by simp
  then have "regexExec pragmaRegex [] (10 # 10 # s) = None" by (rule no_directive_after_newline)
  then have 2: "regexExec pragmaRegex [] (js ''\<newline>\<newline>'' @ s) = None" by (simp add: js_def)
  from 1 2 show ?thesis by simp
qed

lemma sample_licensed:
  "licensedSource \<noteq> []
   \<and> regexExec pragmaRegex [] licensedSource = None
   \<and> regexExec spdxRegex [] licensedSource
       = Some ([], js ''// SPDX-License-Identifier: MIT\<newline>'', js ''contract A {}'')
   \<and> of_char CHR ''$'' \<notin> set (js ''// SPDX-License-Identifier: MIT\<newline>'')"
  by code_simp

subsection \<open>Idempotence\<close>

text \<open>
  Claim C9. \<open>forceVersion\<close> returns a text for every input, a string or not; the text
  contains \<open>pragma solidity 0.8.28;\<close>; and \<open>forceVersion\<close> applied to its own output
  returns that output.
\<close>

theorem forceVersion_idempotent_total:
  "forceVersion (JString (forceVersion source)) = forceVersion source
   \<and> sublist (js ''pragma solidity 0.8.28;'') (forceVersion source)"
proof (cases source)
  case JOther
  have "sublist (js ''pragma solidity 0.8.28;'') fallbackSource" by code_simp
  with JOther forceVersion_fallback show ?thesis by (simp add: forceVersion_def)
next
  case (JString s)
  show ?thesis
  proof (cases "s = []")
    case True
    have "sublist (js ''pragma solidity 0.8.28;'') fallbackSource" by code_simp
    with JString True forceVersion_fallback show ?thesis by (simp add: forceVersion_def)
  next
    case False
    show ?thesis
    proof (cases "regexExec pragmaRegex [] s")
      case None
      with JString False have out: "forceVersion source = requiredPragma @ js ''\<newline>\<newline>'' @ s"
        by (simp add: forceVersion_def)
      from requiredPragma_matches[of "js ''\<newline>\<newline>'' @ s"] obtain g rs where
        new: "pragmaRegex (requiredPragma @ js ''\<newline>\<newline>'' @ s) = (g, js ''\<newline>\<newline>'' @ s) # rs" by blast
      have "regexExec pragmaRegex [] ([] @ requiredPragma @ js ''\<newline>\<newline>'' @ s)
              = Some ([] @ [], g, js ''\<newline>\<newline>'' @ s)"
        by (rule regexExec_Some_I[where m = pragmaRegex and p = "[]" and b = "[]", OF new]) simp
      then have "forceVersion (JString (requiredPragma @ js ''\<newline>\<newline>'' @ s))
              = requiredPragma @ js ''\<newline>\<newline>'' @ s"
        using requiredPragma_nonempty by (simp add: forceVersion_def)
      moreover have "sublist (js ''pragma solidity 0.8.28;'') (requiredPragma @ js ''\<newline>\<newline>'' @ s)"
        unfolding requiredPragma_def by (rule sublist_append_rightI)
      ultimately show ?thesis using out by simp
    next
      case (Some x)
      obtain p g r where x: "x = (p, g, r)" by (cases x)
      with Some JString False have out: "forceVersion source = p @ requiredPragma @ r"
        by (simp add: forceVersion_def)
      from replaced_is_fixed[of s p g r] Some x obtain g' where
        "regexExec pragmaRegex [] (p @ requiredPragma @ r) = Some (p, g', r)" by auto
      then have "forceVersion (JString (p @ requiredPragma @ r)) = p @ requiredPragma @ r"
        using requiredPragma_nonempty by (simp add: forceVersion_def)
      moreover have "sublist (js ''pragma solidity 0.8.28;'') (p @ requiredPragma @ r)"
        unfolding requiredPragma_def by (rule sublist_appendI)
      ultimately show ?thesis using out by simp
    qed
  qed
qed

subsection \<open>Replacing an existing directive\<close>

text \<open>
  Claim C5, as stated, fails: the original specifier can still occur in the output, as a
  part of \<open>0.8.28\<close> itself or in the text around the directive, which is left as it is.
\<close>

theorem original_version_remains_counterexample:
  "regexExec pragmaRegex [] (js ''pragma solidity 0.8.2;'') = Some ([], js ''0.8.2'', [])
   \<and> js ''0.8.2'' \<noteq> js ''0.8.28''
   \<and> sublist (js ''0.8.2'') (forceVersion (JString (js ''pragma solidity 0.8.2;'')))
   \<and> sublist (js ''0.8.2'') (forceCorrectVersion (JString (js ''pragma solidity 0.8.2;'')))
   \<and> regexExec pragmaRegex [] (js ''pragma solidity ^0.8.0; // was ^0.8.0'')
       = Some ([], js ''^0.8.0'', js '' // was ^0.8.0'')
   \<and> js ''^0.8.0'' \<noteq> js ''0.8.28''
   \<and> sublist (js ''^0.8.0'') (forceVersion (JString (js ''pragma solidity ^0.8.0; // was ^0.8.0'')))
   \<and> sublist (js ''^0.8.0'')
        (forceCorrectVersion (JString (js ''pragma solidity ^0.8.0; // was ^0.8.0'')))"
  by code_simp

text \<open>
  Claim C5, amended. When the source has a directive \<open>pragma solidity X;\<close>, that is when
  the regular expression matches, with the text \<open>front\<close> before its first match and the
  text \<open>back\<close> after it, both normalizers return \<open>front\<close>, \<open>pragma solidity 0.8.28;\<close>
  and \<open>back\<close>: the first directive is replaced, whatever \<open>X\<close> was, the rest of the text
  is unchanged, and the output contains \<open>0.8.28\<close>.
\<close>

theorem first_directive_replaced:
  assumes "regexExec pragmaRegex [] s = Some (front, X, back)"
  shows "forceVersion (JString s) = front @ js ''pragma solidity 0.8.28;'' @ back
       \<and> forceCorrectVersion (JString s) = front @ js ''pragma solidity 0.8.28;'' @ back
       \<and> sublist (js ''0.8.28'') (forceVersion (JString s))
       \<and> (\<exists>w1 w2. w1 \<noteq> [] \<and> (\<forall>c\<in>set w1. isWhiteSpace c) \<and> w2 \<noteq> [] \<and> (\<forall>c\<in>set w2. isWhiteSpace c)
             \<and> X \<noteq> [] \<and> of_char CHR '';'' \<notin> set X
             \<and> s = front @ js ''pragma'' @ w1 @ js ''solidity'' @ w2 @ X @ js '';'' @ back)"
proof -
  from regexExec_Some_D[OF assms] obtain mt rs where
    h: "s = front @ mt" "pragmaRegex mt = (X, back) # rs" by auto
  from h(2) have "mt \<noteq> []" using pragmaRegex_Nil by auto
  with h(1) have ne: "s \<noteq> []" by simp
  from h(2) have "(X, back) \<in> set (pragmaRegex mt)" by simp
  then obtain w1 w2 where
    d: "w1 \<noteq> []" "\<forall>c\<in>set w1. isWhiteSpace c" "w2 \<noteq> []" "\<forall>c\<in>set w2. isWhiteSpace c"
       "X \<noteq> []" "of_char CHR '';'' \<notin> set X"
       "mt = js ''pragma'' @ w1 @ js ''solidity'' @ w2 @ X @ js '';'' @ back"
    unfolding in_pragmaRegex_iff by blast
  have 1: "forceVersion (JString s) = front @ js ''pragma solidity 0.8.28;'' @ back"
    using assms ne by (simp add: forceVersion_def requiredPragma_def)
  have 2: "forceCorrectVersion (JString s) = front @ js ''pragma solidity 0.8.28;'' @ back"
    using assms ne by (simp add: forceCorrectVersion_def requiredPragma_def)
  have "js ''pragma solidity 0.8.28;'' = js ''pragma solidity '' @ js ''0.8.28'' @ js '';''"
    by (simp add: js_def)
  then have "front @ js ''pragma solidity 0.8.28;'' @ back
      = (front @ js ''pragma solidity '') @ js ''0.8.28'' @ (js '';'' @ back)" by simp
  then have 3: "sublist (js ''0.8.28'') (front @ js ''pragma solidity 0.8.28;'' @ back)"
    by (simp only: sublist_appendI)
  from d h(1) have 4: "\<exists>w1 w2. w1 \<noteq> [] \<and> (\<forall>c\<in>set w1. isWhiteSpace c) \<and> w2 \<noteq> [] \<and> (\<forall>c\<in>set w2. isWhiteSpace c)
             \<and> X \<noteq> [] \<and> of_char CHR '';'' \<notin> set X
             \<and> s = front @ js ''pragma'' @ w1 @ js ''solidity'' @ w2 @ X @ js '';'' @ back"
    by blast
  from 1 2 3 4 show ?thesis by simp
qed

theorem first_directive_replaced_witness:
  "forceVersion (JString (js ''// old\<newline>pragma solidity ^0.8.0;\<newline>contract A {}''))
     = js ''// old\<newline>'' @ js ''pragma solidity 0.8.28;'' @ js ''\<newline>contract A {}''
   \<and> forceCorrectVersion (JString (js ''// old\<newline>pragma solidity ^0.8.0;\<newline>contract A {}''))
     = js ''// old\<newline>'' @ js ''pragma solidity 0.8.28;'' @ js ''\<newline>contract A {}''"
  using first_directive_replaced[OF sample_directive] by simp

subsection \<open>Inserting a directive\<close>

text \<open>
  Claim C6, as stated, fails on \<open>forceVersion\<close>, which does not look for a license
  comment: it puts the directive at the very top, before the SPDX line.
\<close>

theorem pragma_before_license_counterexample:
  "regexExec pragmaRegex [] licensedSource = None
   \<and> regexExec spdxRegex [] licensedSource
       = Some ([], js ''// SPDX-License-Identifier: MIT\<newline>'', js ''contract A {}'')
   \<and> forceVersion (JString licensedSource)
       = js ''pragma solidity 0.8.28;\<newline>\<newline>// SPDX-License-Identifier: MIT\<newline>contract A {}''"
  by code_simp

text \<open>
  Claim C6, amended. Let the source be a non-empty text without directive. \<open>forceVersion\<close>
  puts \<open>pragma solidity 0.8.28;\<close> and two line feeds at the very top, also when an SPDX
  comment is present; the output then has exactly one directive: the expression matches at
  the start, and not in the text after that match. \<open>forceCorrectVersion\<close> does the same
  when the source has no SPDX comment. When it has one, with the text \<open>front\<close> before the
  first and the text \<open>back\<close> after it, and no dollar sign in the comment,
  \<open>forceCorrectVersion\<close> inserts a line feed, the directive and a line feed immediately
  after the comment; the output again has exactly one directive, whose match ends with the
  inserted semicolon.
\<close>

theorem pragma_inserted_when_absent:
  assumes "s \<noteq> []" and "regexExec pragmaRegex [] s = None"
  shows "forceVersion (JString s) = js ''pragma solidity 0.8.28;'' @ js ''\<newline>\<newline>'' @ s
       \<and> (\<exists>g. regexExec pragmaRegex [] (forceVersion (JString s)) = Some ([], g, js ''\<newline>\<newline>'' @ s))
       \<and> regexExec pragmaRegex [] (js ''\<newline>\<newline>'' @ s) = None
       \<and> (regexExec spdxRegex [] s = None \<longrightarrow>
            forceCorrectVersion (JString s) = forceVersion (JString s))
       \<and> (regexExec spdxRegex [] s = Some (front, spdx, back) \<longrightarrow> of_char CHR ''$'' \<notin> set spdx \<longrightarrow>
            s = front @ spdx @ back
          \<and> forceCorrectVersion (JString s)
              = front @ spdx @ js ''\<newline>'' @ js ''pragma solidity 0.8.28;'' @ js ''\<newline>'' @ back
          \<and> (\<exists>f g. regexExec pragmaRegex [] (forceCorrectVersion (JString s))
                      = Some (f, g, js ''\<newline>'' @ back))
          \<and> regexExec pragmaRegex [] (js ''\<newline>'' @ back) = None)"
proof -
  have 1: "forceVersion (JString s) = js ''pragma solidity 0.8.28;'' @ js ''\<newline>\<newline>'' @ s"
    using assms by (simp add: forceVersion_def requiredPragma_def)
  from inserted_at_top[OF assms(2)] 1 have
    2: "\<exists>g. regexExec pragmaRegex [] (forceVersion (JString s)) = Some ([], g, js ''\<newline>\<newline>'' @ s)"
    and 3: "regexExec pragmaRegex [] (js ''\<newline>\<newline>'' @ s) = None"
    by (simp_all add: requiredPragma_def)
  have 4: "regexExec spdxRegex [] s = None \<longrightarrow>
            forceCorrectVersion (JString s) = forceVersion (JString s)"
    using assms by (simp add: forceVersion_def forceCorrectVersion_def)
  have 5: "regexExec spdxRegex [] s = Some (front, spdx, back) \<longrightarrow> of_char CHR ''$'' \<notin> set spdx \<longrightarrow>
            s = front @ spdx @ back
          \<and> forceCorrectVersion (JString s)
              = front @ spdx @ js ''\<newline>'' @ js ''pragma solidity 0.8.28;'' @ js ''\<newline>'' @ back
          \<and> (\<exists>f g. regexExec pragmaRegex [] (forceCorrectVersion (JString s))
                      = Some (f, g, js ''\<newline>'' @ back))
          \<and> regexExec pragmaRegex [] (js ''\<newline>'' @ back) = None"
  proof (intro impI)
    assume sp: "regexExec spdxRegex [] s = Some (front, spdx, back)"
      and nd: "of_char CHR ''$'' \<notin> set spdx"
    then have nd': "36 \<notin> set spdx" by simp
    have ni: "36 \<notin> set (js ''\<newline>'' @ requiredPragma @ js ''\<newline>'')"
      by (simp add: js_def requiredPragma_def)
    note rs = replaceString_spdx[OF sp nd' ni]
    from rs have a: "s = front @ spdx @ back" by (rule conjunct1)
    from rs have
      b: "replaceString s spdx (spdx @ js ''\<newline>'' @ requiredPragma @ js ''\<newline>'')
              = front @ spdx @ (js ''\<newline>'' @ requiredPragma @ js ''\<newline>'') @ back"
      by (rule conjunct2)
    from b sp assms have
      c: "forceCorrectVersion (JString s)
            = front @ spdx @ js ''\<newline>'' @ requiredPragma @ js ''\<newline>'' @ back"
      by (simp add: forceCorrectVersion_def)
    from assms(2) a have none: "regexExec pragmaRegex [] ((front @ spdx) @ back) = None" by simp
    from one_directive_after_insertion[OF none] c have
      d: "\<exists>f g. regexExec pragmaRegex [] (forceCorrectVersion (JString s))
                      = Some (f, g, js ''\<newline>'' @ back)" by simp
    from none have "regexExec pragmaRegex [] (10 # back) = None" by (rule no_directive_after_newline)
    then have e: "regexExec pragmaRegex [] (js ''\<newline>'' @ back) = None" by (simp add: js_def)
    from a c d e show "s = front @ spdx @ back
          \<and> forceCorrectVersion (JString s)
              = front @ spdx @ js ''\<newline>'' @ js ''pragma solidity 0.8.28;'' @ js ''\<newline>'' @ back
          \<and> (\<exists>f g. regexExec pragmaRegex [] (forceCorrectVersion (JString s))
                      = Some (f, g, js ''\<newline>'' @ back))
          \<and> regexExec pragmaRegex [] (js ''\<newline>'' @ back) = None"
      by (simp add: requiredPragma_def)
  qed
  from 1 2 3 4 5 show ?thesis by blast
qed

theorem pragma_inserted_when_absent_witness:
  "forceVersion (JString licensedSource)
     = js ''pragma solidity 0.8.28;'' @ js ''\<newline>\<newline>'' @ licensedSource
   \<and> forceCorrectVersion (JString licensedSource)
     = js ''// SPDX-License-Identifier: MIT\<newline>'' @ js ''\<newline>'' @ js ''pragma solidity 0.8.28;''
         @ js ''\<newline>'' @ js ''contract A {}''"
  using pragma_inserted_when_absent[of licensedSource "[]" "js ''// SPDX-License-Identifier: MIT\<newline>''"
      "js ''contract A {}''"] sample_licensed
  by simp

end
